theory Spec2Isabelle
  imports Main
begin

section \<open>Go values used by the program\<close>

text \<open>
  The repository holds several generations of one \<^verbatim>\<open>main.go\<close>.  The multi-list
  screen model (pointer receiver, two text inputs, \<^verbatim>\<open>listStartOffset\<close>) is embedded
  under the source's own names (\<open>model\<close>, \<open>initialModel\<close>, \<open>Update\<close>, \<open>SaveItems\<close>,
  \<open>loadItems\<close>); the single-list \<^verbatim>\<open>src/main.go\<close> is embedded with the prefix
  \<open>single_\<close>.

  Go's \<^verbatim>\<open>int\<close> is modelled by \<open>int\<close>: every cursor value the theorems speak about
  is bounded by the number of rows on screen, far below \<open>2 ^ 63\<close>.  A Go string is a
  \<open>string\<close>, read as a sequence of characters with code points below 256.

  A run-time panic and \<^verbatim>\<open>os.Exit(1)\<close> / \<^verbatim>\<open>log.Fatal\<close> are values of type \<open>error\<close>;
  a function that may panic returns \<open>error + 'a\<close>.
\<close>

datatype error = IndexOutOfRange | NilMapWrite | NilDereference | ExitFailure

definition bindE :: "error + 'a \<Rightarrow> ('a \<Rightarrow> error + 'b) \<Rightarrow> error + 'b" where
  "bindE r f = (case r of Inl e \<Rightarrow> Inl e | Inr a \<Rightarrow> f a)"

text \<open>\<^verbatim>\<open>xs[i]\<close> on a slice: panics outside \<open>0 .. len(xs) - 1\<close>.\<close>

definition slice_index :: "'a list \<Rightarrow> int \<Rightarrow> error + 'a" where
  "slice_index xs i =
     (if 0 \<le> i \<and> i < int (length xs) then Inr (xs ! nat i) else Inl IndexOutOfRange)"

text \<open>
  The loop \<^verbatim>\<open>for i, x := range xs { if i != d { out = append(out, x) } }\<close>,
  with the running index \<open>i\<close> as an argument.
\<close>

fun without_from :: "nat \<Rightarrow> int \<Rightarrow> 'a list \<Rightarrow> 'a list" where
  "without_from i d [] = []"
| "without_from i d (x # xs) =
     (if int i \<noteq> d then x # without_from (Suc i) d xs else without_from (Suc i) d xs)"

definition without_index :: "int \<Rightarrow> 'a list \<Rightarrow> 'a list" where
  "without_index d xs = without_from 0 d xs"

record listItem =
  Item :: string
  Completed :: bool

text \<open>
  \<^verbatim>\<open>map[string][]listItem\<close>.  A nil map reads as empty, ignores \<^verbatim>\<open>delete\<close> and panics
  on assignment.
\<close>

datatype gomap = NilMap | GoMap "string \<rightharpoonup> listItem list"

definition map_index :: "gomap \<Rightarrow> string \<Rightarrow> listItem list" where
  "map_index mp k =
     (case mp of NilMap \<Rightarrow> [] | GoMap f \<Rightarrow> (case f k of None \<Rightarrow> [] | Some v \<Rightarrow> v))"

definition map_assign :: "gomap \<Rightarrow> string \<Rightarrow> listItem list \<Rightarrow> error + gomap" where
  "map_assign mp k v =
     (case mp of NilMap \<Rightarrow> Inl NilMapWrite | GoMap f \<Rightarrow> Inr (GoMap (f(k \<mapsto> v))))"

definition map_delete :: "gomap \<Rightarrow> string \<Rightarrow> gomap" where
  "map_delete mp k = (case mp of NilMap \<Rightarrow> NilMap | GoMap f \<Rightarrow> GoMap (f(k := None)))"

definition map_keys :: "gomap \<Rightarrow> string set" where
  "map_keys mp = (case mp of NilMap \<Rightarrow> {} | GoMap f \<Rightarrow> dom f)"

text \<open>
  \<^verbatim>\<open>mp[k][i].Completed = b\<close>: a write through the slice stored under \<open>k\<close>; it panics
  when \<open>i\<close> is outside that slice.
\<close>

definition set_Completed :: "gomap \<Rightarrow> string \<Rightarrow> int \<Rightarrow> bool \<Rightarrow> error + gomap" where
  "set_Completed mp k i b =
     (if 0 \<le> i \<and> i < int (length (map_index mp k))
      then (case mp of
              NilMap \<Rightarrow> Inl IndexOutOfRange
            | GoMap f \<Rightarrow>
                Inr (GoMap (f(k \<mapsto> (map_index mp k)[nat i := (map_index mp k ! nat i)\<lparr>Completed := b\<rparr>]))))
      else Inl IndexOutOfRange)"

text \<open>
  \<^verbatim>\<open>strings.TrimSpace\<close>, with \<^verbatim>\<open>unicode.IsSpace\<close> on the code points below 256:
  tab, line feed, vertical tab, form feed, carriage return, space, U+0085, U+00A0.
\<close>

definition isSpace :: "char \<Rightarrow> bool" where
  "isSpace c = (c \<in> {CHR 0x09, CHR 0x0A, CHR 0x0B, CHR 0x0C, CHR 0x0D, CHR '' '', CHR 0x85, CHR 0xA0})"

definition TrimSpace :: "string \<Rightarrow> string" where
  "TrimSpace s = rev (dropWhile isSpace (rev (dropWhile isSpace s)))"

section \<open>The collaborators: key events, text fields, JSON codec, file system\<close>

text \<open>
  A \<^verbatim>\<open>tea.Msg\<close> is a key event carrying \<^verbatim>\<open>msg.String()\<close>, or any other message.
  A \<^verbatim>\<open>tea.Cmd\<close> is \<^verbatim>\<open>tea.Quit\<close> or anything else (nil, a blink, a batch of blinks).
\<close>

datatype msg = KeyMsg string | OtherMsg

datatype cmd = tea_Quit | tea_Other

text \<open>
  \<^verbatim>\<open>textinput.Model\<close>: its text and its focus flag.  The prompt and text styles the
  program sets next to every focus change only matter to rendering and are left out.
\<close>

record textinput =
  ti_value :: string
  ti_focus :: bool

definition textinput_New :: textinput where
  "textinput_New = \<lparr>ti_value = [], ti_focus = False\<rparr>"

definition Focus :: "textinput \<Rightarrow> textinput" where
  "Focus t = t\<lparr>ti_focus := True\<rparr>"

definition Blur :: "textinput \<Rightarrow> textinput" where
  "Blur t = t\<lparr>ti_focus := False\<rparr>"

definition SetValue :: "string \<Rightarrow> textinput \<Rightarrow> textinput" where
  "SetValue s t = t\<lparr>ti_value := s\<rparr>"

record jsonData =
  Keys :: "string list"
  Lists :: gomap

text \<open>
  What \<^verbatim>\<open>json.Unmarshal(contents, &data)\<close> leaves behind, \<open>data\<close> being a pointer to a
  \<^verbatim>\<open>jsonData\<close>: an error, a nil pointer (the document \<^verbatim>\<open>null\<close>), or a decoded record.
\<close>

datatype decoded = UnmarshalError | NullDocument | Decoded jsonData

text \<open>
  The library code the program calls but does not contain is a parameter of the
  embedding: the text field's own \<^verbatim>\<open>Update\<close>, and the JSON encoder and decoder
  (the encoder is handed a \<^verbatim>\<open>jsonData\<close> by the multi-list program and a slice of
  items by the single-list one; the decoder fills a \<^verbatim>\<open>*jsonData\<close> or a slice of items,
  \<open>None\<close> being its error).
\<close>

datatype go_value = V_jsonData jsonData | V_items "listItem list"

record lib =
  textinput_Update :: "msg \<Rightarrow> textinput \<Rightarrow> textinput"
  json_Marshal :: "go_value \<Rightarrow> string option"
  json_Unmarshal :: "string \<Rightarrow> decoded"
  json_Unmarshal_items :: "string \<Rightarrow> listItem list option"

text \<open>
  The operating system as the program sees it: whether the home directory resolves,
  whether the data directory can be made, whether the file can be written, and what is
  stored under each path.
\<close>

datatype file_state = NotExist | Unreadable | Contents string

record world =
  UserHomeDir :: "string option"
  MkdirAll_ok :: bool
  WriteFile_ok :: bool
  files :: "string \<Rightarrow> file_state"

definition dirName :: string where
  "dirName = ''.tui-do''"

definition fileName :: string where
  "fileName = ''.tui-do.json''"

text \<open>\<^verbatim>\<open>filepath.Join\<close> on non-empty, already clean elements.\<close>

fun filepath_Join :: "string list \<Rightarrow> string" where
  "filepath_Join [] = []"
| "filepath_Join [a] = a"
| "filepath_Join (a # b # rest) = a @ ''/'' @ filepath_Join (b # rest)"

section \<open>The multi-list screen model\<close>

record model =
  lists_map :: gomap
  keys :: "string list"
  selectedList :: int
  cursor :: int
  textInput :: textinput
  newListTextInput :: textinput
  listStartOffset :: int

datatype screenItemKind = kindKey | kindItem | kindNewItem | kindNewList

record screenItem =
  kind :: screenItemKind
  keyIdx :: int
  itemIdx :: int

definition setCursor :: "model \<Rightarrow> int \<Rightarrow> model" where
  "setCursor m new = m\<lparr>cursor := new + listStartOffset m\<rparr>"

definition getItemCursor :: "model \<Rightarrow> int" where
  "getItemCursor m = cursor m - listStartOffset m"

definition blurTextInput :: "model \<Rightarrow> model" where
  "blurTextInput m = m\<lparr>textInput := Blur (textInput m)\<rparr>"

definition blurListTextInput :: "model \<Rightarrow> model" where
  "blurListTextInput m = m\<lparr>newListTextInput := Blur (newListTextInput m)\<rparr>"

definition focusTextInput :: "model \<Rightarrow> model" where
  "focusTextInput m = m\<lparr>textInput := Focus (textInput m)\<rparr>"

definition focusListTextInput :: "model \<Rightarrow> model" where
  "focusListTextInput m = m\<lparr>newListTextInput := Focus (newListTextInput m)\<rparr>"


text \<open>The row projection \<^verbatim>\<open>screenItems\<close>: key rows, item rows of the selected list,
  the add-item row when a list exists, the add-list row.\<close>

definition screenItems :: "model \<Rightarrow> error + screenItem list" where
  "screenItems m =
     (let keyRows = map (\<lambda>i. \<lparr>kind = kindKey, keyIdx = int i, itemIdx = 0\<rparr>) [0 ..< length (keys m)] in
      bindE (if length (keys m) > 0
             then bindE (slice_index (keys m) (selectedList m)) (\<lambda>k.
                    Inr (map (\<lambda>i. \<lparr>kind = kindItem, keyIdx = 0, itemIdx = int i\<rparr>)
                           [0 ..< length (map_index (lists_map m) k)]))
             else Inr []) (\<lambda>itemRows.
      Inr (keyRows @ itemRows
           @ (if length (keys m) > 0 then [\<lparr>kind = kindNewItem, keyIdx = 0, itemIdx = 0\<rparr>] else [])
           @ [\<lparr>kind = kindNewList, keyIdx = 0, itemIdx = 0\<rparr>])))"

subsection \<open>Persistence\<close>

definition SaveItems :: "lib \<Rightarrow> world \<Rightarrow> model \<Rightarrow> error + world" where
  "SaveItems L w m =
     (case UserHomeDir w of
        None \<Rightarrow> Inl ExitFailure
      | Some homeDir \<Rightarrow>
          (let dataDir = filepath_Join [homeDir, dirName] in
           if \<not> MkdirAll_ok w then Inl ExitFailure
           else (case json_Marshal L (V_jsonData \<lparr>Keys = keys m, Lists = lists_map m\<rparr>) of
                   None \<Rightarrow> Inl ExitFailure
                 | Some asStr \<Rightarrow>
                     if WriteFile_ok w
                     then Inr (w\<lparr>files := (files w)(filepath_Join [dataDir, fileName] := Contents asStr)\<rparr>)
                     else Inr w)))"

definition loadItems :: "lib \<Rightarrow> world \<Rightarrow> error + (gomap \<times> string list)" where
  "loadItems L w =
     (case UserHomeDir w of
        None \<Rightarrow> Inl ExitFailure
      | Some homeDir \<Rightarrow>
          (case files w (filepath_Join [homeDir, dirName, fileName]) of
             NotExist \<Rightarrow> Inr (GoMap Map.empty, [])
           | Unreadable \<Rightarrow> Inl ExitFailure
           | Contents contents \<Rightarrow>
               if length contents = 0 then Inr (GoMap Map.empty, [])
               else (case json_Unmarshal L contents of
                       UnmarshalError \<Rightarrow> Inl ExitFailure
                     | NullDocument \<Rightarrow> Inl NilDereference
                     | Decoded data \<Rightarrow> Inr (Lists data, Keys data))))"

subsection \<open>Start-up\<close>

definition initialModel :: "lib \<Rightarrow> world \<Rightarrow> error + model" where
  "initialModel L w =
     bindE (loadItems L w) (\<lambda>(lists, keys).
       let selectedList = 0;
           ti = textinput_New;
           newListTi = textinput_New;
           listStartOffset = int (length keys)
       in bindE (if length keys > 0
                 then bindE (slice_index keys selectedList) (\<lambda>k.
                        Inr (int (length (map_index lists k)) + listStartOffset))
                 else Inr 0) (\<lambda>cursor.
          let m = \<lparr>lists_map = lists, keys = keys, selectedList = selectedList, cursor = cursor,
                   textInput = ti, newListTextInput = newListTi,
                   listStartOffset = listStartOffset\<rparr>
          in if length keys > 0
             then Inr (blurListTextInput (focusTextInput m))
             else Inr (blurTextInput (focusListTextInput m))))"

subsection \<open>One event\<close>

text \<open>The values \<^verbatim>\<open>Update\<close> computes before it looks at the message.\<close>

record locals =
  numKeys :: int
  items :: "listItem list"
  numItems :: int
  inputsCount :: int
  total_rows :: int
  newListIdx :: int
  newItemIdx :: int
  itemCursor :: int

definition Update_locals :: "model \<Rightarrow> error + locals" where
  "Update_locals m =
     (let numKeys = int (length (keys m)) in
      bindE (if numKeys > 0
             then bindE (slice_index (keys m) (selectedList m)) (\<lambda>k. Inr (map_index (lists_map m) k))
             else Inr []) (\<lambda>items.
      let numItems = int (length items);
          inputsCount = (if numKeys > 0 then 2 else 1);
          total = numKeys + numItems + inputsCount;
          newListIdx = total - 1;
          newItemIdx = (if inputsCount = 2 then total - 2 else - 1);
          itemCursor = getItemCursor m
      in Inr \<lparr>numKeys = numKeys, items = items, numItems = numItems, inputsCount = inputsCount,
              total_rows = total, newListIdx = newListIdx, newItemIdx = newItemIdx,
              itemCursor = itemCursor\<rparr>))"

text \<open>The end of \<^verbatim>\<open>Update\<close>, reached by every \<^verbatim>\<open>break\<close> and by every unhandled message:
  both text fields see the message.\<close>

definition Update_fields :: "lib \<Rightarrow> world \<Rightarrow> model \<Rightarrow> msg \<Rightarrow> error + (model \<times> cmd \<times> world)" where
  "Update_fields L w m msg =
     Inr (m\<lparr>textInput := textinput_Update L msg (textInput m),
            newListTextInput := textinput_Update L msg (newListTextInput m)\<rparr>, tea_Other, w)"

text \<open>\<^verbatim>\<open>case "ctrl+c", "q"\<close>\<close>

definition Update_quit :: "lib \<Rightarrow> world \<Rightarrow> model \<Rightarrow> locals \<Rightarrow> string \<Rightarrow> error + (model \<times> cmd \<times> world)" where
  "Update_quit L w m c s =
     (if s = ''q'' \<and> itemCursor c = numItems c \<and> numKeys c > 0
      then Update_fields L w m (KeyMsg s)
      else bindE (SaveItems L w m) (\<lambda>w'. Inr (m, tea_Quit, w')))"

text \<open>\<^verbatim>\<open>case "d"\<close>\<close>

definition Update_delete :: "lib \<Rightarrow> world \<Rightarrow> model \<Rightarrow> locals \<Rightarrow> string \<Rightarrow> error + (model \<times> cmd \<times> world)" where
  "Update_delete L w m c s =
     (if cursor m < numKeys c then
        (let deleteKeyIdx = cursor m in
         bindE (slice_index (keys m) deleteKeyIdx) (\<lambda>deleteKey.
         let newKeys = without_index deleteKeyIdx (keys m);
             m1 = m\<lparr>lists_map := map_delete (lists_map m) deleteKey\<rparr>
         in if length newKeys = 0 then
              Inr (focusListTextInput (blurTextInput
                     (m1\<lparr>keys := newKeys, selectedList := 0, listStartOffset := 0, cursor := 0\<rparr>)),
                   tea_Other, w)
            else
              (let sel = (if deleteKeyIdx = selectedList m1
                          then (if deleteKeyIdx - 1 < 0 then 0 else deleteKeyIdx - 1)
                          else if deleteKeyIdx < selectedList m1 then selectedList m1 - 1
                          else selectedList m1);
                   m2 = m1\<lparr>selectedList := sel, keys := newKeys,
                           listStartOffset := int (length newKeys), cursor := sel\<rparr>
               in Inr (blurListTextInput (blurTextInput m2), tea_Other, w))))
      else if itemCursor c < 0 \<or> itemCursor c \<ge> numItems c then Update_fields L w m (KeyMsg s)
      else
        (let newItems = without_index (itemCursor c) (items c);
             m1 = setCursor m (int (length newItems) - 1)
         in bindE (slice_index (keys m1) (selectedList m1)) (\<lambda>k.
            bindE (map_assign (lists_map m1) k newItems) (\<lambda>lists'.
            Update_fields L w (m1\<lparr>lists_map := lists'\<rparr>) (KeyMsg s)))))"

text \<open>\<^verbatim>\<open>case "tab", "shift+tab", "up", "down"\<close>: the focus is chosen from the cursor
  before it is wrapped.\<close>

definition Update_move :: "lib \<Rightarrow> world \<Rightarrow> model \<Rightarrow> locals \<Rightarrow> string \<Rightarrow> error + (model \<times> cmd \<times> world)" where
  "Update_move L w m c s =
     (let m1 = (if s = ''up'' \<or> s = ''shift+tab'' then m\<lparr>cursor := cursor m - 1\<rparr>
                else m\<lparr>cursor := cursor m + 1\<rparr>);
          m2 = (if newItemIdx c \<ge> 0 \<and> cursor m1 = newItemIdx c
                then blurListTextInput (focusTextInput m1)
                else if cursor m1 = newListIdx c
                then blurTextInput (focusListTextInput m1)
                else blurTextInput (blurListTextInput m1));
          m3 = (if cursor m2 \<ge> total_rows c then m2\<lparr>cursor := 0\<rparr>
                else if cursor m2 < 0 then m2\<lparr>cursor := total_rows c - 1\<rparr>
                else m2)
      in Inr (m3, tea_Other, w))"

text \<open>\<^verbatim>\<open>case "enter"\<close>\<close>

definition Update_enter :: "lib \<Rightarrow> world \<Rightarrow> model \<Rightarrow> locals \<Rightarrow> string \<Rightarrow> error + (model \<times> cmd \<times> world)" where
  "Update_enter L w m c s =
     (if cursor m < numKeys c then
        Update_fields L w (m\<lparr>selectedList := cursor m\<rparr>) (KeyMsg s)
      else if itemCursor c \<ge> 0 \<and> itemCursor c < numItems c then
        bindE (slice_index (items c) (itemCursor c)) (\<lambda>it.
        let completed = Completed it in
        bindE (slice_index (keys m) (selectedList m)) (\<lambda>k.
        bindE (set_Completed (lists_map m) k (itemCursor c) (\<not> completed)) (\<lambda>lists'.
        Update_fields L w (m\<lparr>lists_map := lists'\<rparr>) (KeyMsg s))))
      else if newItemIdx c \<ge> 0 \<and> cursor m = newItemIdx c then
        (let text = TrimSpace (ti_value (textInput m)) in
         if text = [] then Update_fields L w m (KeyMsg s)
         else
           bindE (slice_index (keys m) (selectedList m)) (\<lambda>k.
           bindE (map_assign (lists_map m) k (items c @ [\<lparr>Item = text, Completed = False\<rparr>])) (\<lambda>lists'.
           Inr (m\<lparr>lists_map := lists', cursor := cursor m + 1,
                  textInput := SetValue [] (textInput m)\<rparr>, tea_Other, w))))
      else if cursor m = newListIdx c then
        (let text = TrimSpace (ti_value (newListTextInput m)) in
         if text = [] then Update_fields L w m (KeyMsg s)
         else
           (let m1 = m\<lparr>keys := keys m @ [text]\<rparr> in
            bindE (map_assign (lists_map m1) text []) (\<lambda>lists'.
            let m2 = m1\<lparr>lists_map := lists', selectedList := int (length (keys m1)) - 1,
                        listStartOffset := int (length (keys m1))\<rparr>;
                m3 = m2\<lparr>cursor := listStartOffset m2,
                        newListTextInput := SetValue [] (newListTextInput m2)\<rparr>
            in Inr (m3\<lparr>textInput := Focus (textInput m3),
                       newListTextInput := Blur (newListTextInput m3)\<rparr>, tea_Other, w))))
      else Update_fields L w m (KeyMsg s))"

text \<open>\<^verbatim>\<open>case " "\<close>\<close>

definition Update_space :: "lib \<Rightarrow> world \<Rightarrow> model \<Rightarrow> locals \<Rightarrow> string \<Rightarrow> error + (model \<times> cmd \<times> world)" where
  "Update_space L w m c s =
     (if itemCursor c \<ge> 0 \<and> itemCursor c < numItems c then
        bindE (slice_index (items c) (itemCursor c)) (\<lambda>it.
        let completed = Completed it in
        bindE (slice_index (keys m) (selectedList m)) (\<lambda>k.
        bindE (set_Completed (lists_map m) k (itemCursor c) (\<not> completed)) (\<lambda>lists'.
        Update_fields L w (m\<lparr>lists_map := lists'\<rparr>) (KeyMsg s))))
      else Update_fields L w m (KeyMsg s))"

definition Update :: "lib \<Rightarrow> world \<Rightarrow> model \<Rightarrow> msg \<Rightarrow> error + (model \<times> cmd \<times> world)" where
  "Update L w m msg =
     bindE (Update_locals m) (\<lambda>c.
       case msg of
         KeyMsg s \<Rightarrow>
           if s = ''ctrl+c'' \<or> s = ''q'' then Update_quit L w m c s
           else if s = ''d'' then Update_delete L w m c s
           else if s = ''tab'' \<or> s = ''shift+tab'' \<or> s = ''up'' \<or> s = ''down'' then Update_move L w m c s
           else if s = ''enter'' then Update_enter L w m c s
           else if s = '' '' then Update_space L w m c s
           else Update_fields L w m msg
       | OtherMsg \<Rightarrow> Update_fields L w m msg)"


section \<open>The single-list program of \<^verbatim>\<open>src/main.go\<close>\<close>

record single_model =
  single_items :: "listItem list"
  single_cursor :: int
  single_textInput :: textinput

definition single_loadItems :: "lib \<Rightarrow> world \<Rightarrow> error + listItem list" where
  "single_loadItems L w =
     (case UserHomeDir w of
        None \<Rightarrow> Inl ExitFailure
      | Some homeDir \<Rightarrow>
          (case files w (filepath_Join [homeDir, dirName, fileName]) of
             NotExist \<Rightarrow> Inr []
           | Unreadable \<Rightarrow> Inl ExitFailure
           | Contents data \<Rightarrow>
               if length data = 0 then Inr []
               else (case json_Unmarshal_items L data of
                       None \<Rightarrow> Inl ExitFailure
                     | Some its \<Rightarrow> Inr its)))"

definition single_initialModel :: "lib \<Rightarrow> world \<Rightarrow> error + single_model" where
  "single_initialModel L w =
     bindE (single_loadItems L w) (\<lambda>its.
       Inr \<lparr>single_items = its, single_cursor = int (length its),
            single_textInput = Focus textinput_New\<rparr>)"

definition single_SaveItems :: "lib \<Rightarrow> world \<Rightarrow> single_model \<Rightarrow> error + world" where
  "single_SaveItems L w m =
     (case UserHomeDir w of
        None \<Rightarrow> Inl ExitFailure
      | Some homeDir \<Rightarrow>
          (let dataDir = filepath_Join [homeDir, dirName] in
           if \<not> MkdirAll_ok w then Inl ExitFailure
           else (case json_Marshal L (V_items (single_items m)) of
                   None \<Rightarrow> Inl ExitFailure
                 | Some asStr \<Rightarrow>
                     if WriteFile_ok w
                     then Inr (w\<lparr>files := (files w)(filepath_Join [dataDir, fileName] := Contents asStr)\<rparr>)
                     else Inr w)))"

definition single_fields :: "lib \<Rightarrow> world \<Rightarrow> single_model \<Rightarrow> msg \<Rightarrow> error + (single_model \<times> cmd \<times> world)" where
  "single_fields L w m msg =
     Inr (m\<lparr>single_textInput := textinput_Update L msg (single_textInput m)\<rparr>, tea_Other, w)"

text \<open>The completion toggle \<^verbatim>\<open>m.items[m.cursor].Completed = ...\<close> of both the
  \<^verbatim>\<open>"enter"\<close> and the \<^verbatim>\<open>" "\<close> case.\<close>

definition single_toggle :: "single_model \<Rightarrow> error + single_model" where
  "single_toggle m =
     bindE (slice_index (single_items m) (single_cursor m)) (\<lambda>it.
       let completed = Completed it in
       if completed
       then Inr (m\<lparr>single_items := (single_items m)[nat (single_cursor m) := it\<lparr>Completed := False\<rparr>]\<rparr>)
       else Inr (m\<lparr>single_items := (single_items m)[nat (single_cursor m) := it\<lparr>Completed := True\<rparr>]\<rparr>))"

definition single_Update :: "lib \<Rightarrow> world \<Rightarrow> single_model \<Rightarrow> msg \<Rightarrow> error + (single_model \<times> cmd \<times> world)" where
  "single_Update L w m msg =
     (case msg of
        KeyMsg s \<Rightarrow>
          if s = ''ctrl+c'' \<or> s = ''q'' then
            (if s = ''q'' \<and> single_cursor m = int (length (single_items m))
             then single_fields L w m msg
             else bindE (single_SaveItems L w m) (\<lambda>w'. Inr (m, tea_Quit, w')))
          else if s = ''tab'' \<or> s = ''shift+tab'' \<or> s = ''up'' \<or> s = ''down'' then
            (let m1 = (if s = ''up'' \<or> s = ''shift+tab''
                       then m\<lparr>single_cursor := single_cursor m - 1\<rparr>
                       else m\<lparr>single_cursor := single_cursor m + 1\<rparr>);
                 m2 = (if single_cursor m1 > int (length (single_items m1))
                       then m1\<lparr>single_cursor := 0\<rparr>
                       else if single_cursor m1 < 0
                       then m1\<lparr>single_cursor := int (length (single_items m1))\<rparr>
                       else m1);
                 m3 = (if int (length (single_items m2)) = single_cursor m2
                       then m2\<lparr>single_textInput := Focus (single_textInput m2)\<rparr>
                       else m2\<lparr>single_textInput := Blur (single_textInput m2)\<rparr>)
             in Inr (m3, tea_Other, w))
          else if s = ''enter'' then
            (if single_cursor m \<noteq> int (length (single_items m))
             then bindE (single_toggle m) (\<lambda>m1. single_fields L w m1 msg)
             else
               (let text = ti_value (single_textInput m);
                    m1 = m\<lparr>single_items := single_items m @ [\<lparr>Item = text, Completed = False\<rparr>]\<rparr>;
                    m2 = m1\<lparr>single_cursor := single_cursor m1 + 1\<rparr>
                in Inr (m2\<lparr>single_textInput := SetValue [] (single_textInput m2)\<rparr>, tea_Other, w)))
          else if s = '' '' then
            (if single_cursor m \<noteq> int (length (single_items m))
             then bindE (single_toggle m) (\<lambda>m1. single_fields L w m1 msg)
             else single_fields L w m msg)
          else single_fields L w m msg
      | OtherMsg \<Rightarrow> single_fields L w m msg)"

section \<open>The JSON documents of the snapshot\<close>

text \<open>
  \<^verbatim>\<open>encoding/json\<close> is library code.  What it does with the two types of the program is
  written down here after the package's documentation, on documents rather than on their
  text: a document is a tree, and which bytes are the text of which document is left to
  the library.
\<close>

datatype json = JNull | JBool bool | JNumber string | JString string
  | JArray "json list" | JObject "(string \<times> json) list"

text \<open>
  What \<^verbatim>\<open>json.Marshal\<close> writes.  A struct is an object of its tagged fields in the order
  of the declaration; a slice is an array, a nil slice \<^verbatim>\<open>null\<close>; a map is an object with
  one member per key (Go sorts them; any order is admitted here), a nil map \<^verbatim>\<open>null\<close>.
\<close>

definition item_json :: "listItem \<Rightarrow> json" where
  "item_json it = JObject [(''item'', JString (Item it)), (''completed'', JBool (Completed it))]"

definition slice_json :: "('a \<Rightarrow> json) \<Rightarrow> 'a list \<Rightarrow> json \<Rightarrow> bool" where
  "slice_json e xs t \<longleftrightarrow> t = JArray (map e xs) \<or> (xs = [] \<and> t = JNull)"

definition map_json :: "gomap \<Rightarrow> json \<Rightarrow> bool" where
  "map_json mp t =
     (case mp of
        NilMap \<Rightarrow> t = JNull
      | GoMap f \<Rightarrow>
          (\<exists>ms. t = JObject ms \<and> distinct (map fst ms) \<and> fst ` set ms = dom f \<and>
                (\<forall>(k, v) \<in> set ms. \<exists>xs. f k = Some xs \<and> slice_json item_json xs v)))"

definition jsonData_json :: "jsonData \<Rightarrow> json \<Rightarrow> bool" where
  "jsonData_json d t \<longleftrightarrow>
     (\<exists>tk tl. t = JObject [(''keys'', tk), (''lists'', tl)] \<and>
              slice_json JString (Keys d) tk \<and> map_json (Lists d) tl)"

text \<open>
  What \<^verbatim>\<open>json.Unmarshal\<close> does with a document.  Object keys are matched to the field
  tags without regard to case and unknown keys are ignored; \<^verbatim>\<open>null\<close> leaves a string, a
  boolean or a struct as it is and makes a slice or a map nil; an array replaces a slice;
  an object is stored member by member into the map at hand, allocated when nil; a value
  of the wrong kind is an error.  The target of the program's call is a pointer to a zero
  \<^verbatim>\<open>jsonData\<close>, which the document \<^verbatim>\<open>null\<close> sets to nil.
\<close>

definition fold_ascii :: "char \<Rightarrow> char" where
  "fold_ascii c =
     (let n = (of_char c :: nat) in if 65 \<le> n \<and> n \<le> 90 then char_of (n + 32) else c)"

definition names_field :: "string \<Rightarrow> string \<Rightarrow> bool" where
  "names_field k name \<longleftrightarrow> map fold_ascii k = name"

definition dec_string :: "string \<Rightarrow> json \<Rightarrow> string option" where
  "dec_string cur t = (case t of JString s \<Rightarrow> Some s | JNull \<Rightarrow> Some cur | _ \<Rightarrow> None)"

definition dec_bool :: "bool \<Rightarrow> json \<Rightarrow> bool option" where
  "dec_bool cur t = (case t of JBool b \<Rightarrow> Some b | JNull \<Rightarrow> Some cur | _ \<Rightarrow> None)"

fun dec_item_members :: "(string \<times> json) list \<Rightarrow> listItem \<Rightarrow> listItem option" where
  "dec_item_members [] it = Some it"
| "dec_item_members ((k, v) # ms) it =
     (if names_field k ''item'' then
        (case dec_string (Item it) v of
           None \<Rightarrow> None | Some s \<Rightarrow> dec_item_members ms (it\<lparr>Item := s\<rparr>))
      else if names_field k ''completed'' then
        (case dec_bool (Completed it) v of
           None \<Rightarrow> None | Some b \<Rightarrow> dec_item_members ms (it\<lparr>Completed := b\<rparr>))
      else dec_item_members ms it)"

definition dec_item :: "json \<Rightarrow> listItem option" where
  "dec_item t =
     (case t of
        JObject ms \<Rightarrow> dec_item_members ms \<lparr>Item = [], Completed = False\<rparr>
      | JNull \<Rightarrow> Some \<lparr>Item = [], Completed = False\<rparr>
      | _ \<Rightarrow> None)"

definition dec_slice :: "(json \<Rightarrow> 'a option) \<Rightarrow> json \<Rightarrow> 'a list option" where
  "dec_slice e t =
     (case t of JNull \<Rightarrow> Some [] | JArray ts \<Rightarrow> those (map e ts) | _ \<Rightarrow> None)"

fun dec_map_members ::
  "(string \<times> json) list \<Rightarrow> (string \<rightharpoonup> listItem list) \<Rightarrow> (string \<rightharpoonup> listItem list) option" where
  "dec_map_members [] f = Some f"
| "dec_map_members ((k, v) # ms) f =
     (case dec_slice dec_item v of
        None \<Rightarrow> None | Some xs \<Rightarrow> dec_map_members ms (f(k \<mapsto> xs)))"

definition dec_map :: "gomap \<Rightarrow> json \<Rightarrow> gomap option" where
  "dec_map cur t =
     (case t of
        JNull \<Rightarrow> Some NilMap
      | JObject ms \<Rightarrow>
          map_option GoMap
            (dec_map_members ms (case cur of NilMap \<Rightarrow> Map.empty | GoMap f \<Rightarrow> f))
      | _ \<Rightarrow> None)"

fun dec_jsonData_members :: "(string \<times> json) list \<Rightarrow> jsonData \<Rightarrow> jsonData option" where
  "dec_jsonData_members [] d = Some d"
| "dec_jsonData_members ((k, v) # ms) d =
     (if names_field k ''keys'' then
        (case dec_slice (dec_string []) v of
           None \<Rightarrow> None | Some ks \<Rightarrow> dec_jsonData_members ms (d\<lparr>Keys := ks\<rparr>))
      else if names_field k ''lists'' then
        (case dec_map (Lists d) v of
           None \<Rightarrow> None | Some mp \<Rightarrow> dec_jsonData_members ms (d\<lparr>Lists := mp\<rparr>))
      else dec_jsonData_members ms d)"

definition jsonData_of_json :: "json \<Rightarrow> decoded" where
  "jsonData_of_json t =
     (case t of
        JNull \<Rightarrow> NullDocument
      | JObject ms \<Rightarrow>
          (case dec_jsonData_members ms \<lparr>Keys = [], Lists = NilMap\<rparr> of
             None \<Rightarrow> UnmarshalError | Some d \<Rightarrow> Decoded d)
      | _ \<Rightarrow> UnmarshalError)"

text \<open>
  The contract of the library, for a relation \<open>doc\<close> between bytes and the document they
  are the text of: the encoder writes the text of a document that encodes its argument,
  the decoder treats a text as the document it denotes, and no document has the empty
  text.
\<close>

definition encoding_json :: "lib \<Rightarrow> (string \<Rightarrow> json \<Rightarrow> bool) \<Rightarrow> bool" where
  "encoding_json L doc \<longleftrightarrow>
     (\<forall>d bytes. json_Marshal L (V_jsonData d) = Some bytes \<longrightarrow>
        (\<exists>t. doc bytes t \<and> jsonData_json d t)) \<and>
     (\<forall>bytes t. doc bytes t \<longrightarrow> json_Unmarshal L bytes = jsonData_of_json t) \<and>
     (\<forall>t. \<not> doc [] t)"

section \<open>Reachable states and the quantities the properties are stated with\<close>

text \<open>A run of the program: start-up in some world, then one \<^verbatim>\<open>Update\<close> per message.  A
  panic or an exit ends the run, so only \<open>Inr\<close> results lead on.\<close>

inductive reachable :: "lib \<Rightarrow> model \<Rightarrow> bool" for L :: lib where
  start: "initialModel L w = Inr m \<Longrightarrow> reachable L m"
| event: "reachable L m \<Longrightarrow> Update L w m msg = Inr (m', c, w') \<Longrightarrow> reachable L m'"

fun run_events :: "lib \<Rightarrow> world \<Rightarrow> model \<Rightarrow> msg list \<Rightarrow> error + model" where
  "run_events L w m [] = Inr m"
| "run_events L w m (e # es) = bindE (Update L w m e) (\<lambda>(m', c, w'). run_events L w' m' es)"

text \<open>The items of the selected list and the number of rows on screen, written as the
  specification words them: keys, plus items of the selected list, plus one input row,
  or two when a list exists.\<close>

definition selected_items :: "model \<Rightarrow> listItem list" where
  "selected_items m =
     (if keys m = [] then [] else map_index (lists_map m) (keys m ! nat (selectedList m)))"

definition row_count :: "model \<Rightarrow> int" where
  "row_count m =
     int (length (keys m)) + int (length (selected_items m)) + (if keys m = [] then 1 else 2)"

text \<open>The offset is the key count and the selection points at a key.\<close>

definition selection_ok :: "model \<Rightarrow> bool" where
  "selection_ok m \<longleftrightarrow>
     listStartOffset m = int (length (keys m)) \<and>
     (keys m = [] \<or> (0 \<le> selectedList m \<and> selectedList m < int (length (keys m))))"

definition inv :: "model \<Rightarrow> bool" where
  "inv m \<longleftrightarrow> selection_ok m \<and> 0 \<le> cursor m \<and> cursor m < row_count m"

text \<open>The locals of \<^verbatim>\<open>Update\<close> in closed form.\<close>

definition frame :: "model \<Rightarrow> locals" where
  "frame m =
     \<lparr>numKeys = int (length (keys m)), items = selected_items m,
      numItems = int (length (selected_items m)),
      inputsCount = (if keys m = [] then 1 else 2),
      total_rows = row_count m, newListIdx = row_count m - 1,
      newItemIdx = (if keys m = [] then - 1 else row_count m - 2),
      itemCursor = cursor m - int (length (keys m))\<rparr>"

text \<open>The list mapping is a real map, not Go's nil map.\<close>

definition allocated :: "model \<Rightarrow> bool" where
  "allocated m \<longleftrightarrow> lists_map m \<noteq> NilMap"

subsection \<open>A concrete library and world for evaluating the program\<close>

text \<open>A text field that appends a one-character key to its text while it has the focus
  and ignores everything else, as the bubbles text input does with a printable key at
  the end of the line.\<close>

definition typed_field :: "msg \<Rightarrow> textinput \<Rightarrow> textinput" where
  "typed_field msg t =
     (case msg of
        KeyMsg s \<Rightarrow> if ti_focus t \<and> length s = 1 then t\<lparr>ti_value := ti_value t @ s\<rparr> else t
      | OtherMsg \<Rightarrow> t)"

text \<open>A codec that knows one document, the snapshot without lists.\<close>

definition empty_document :: string where
  "empty_document = ''{\"keys\":[],\"lists\":{}}''"

definition demo_Marshal :: "go_value \<Rightarrow> string option" where
  "demo_Marshal v =
     (if v = V_jsonData \<lparr>Keys = [], Lists = GoMap Map.empty\<rparr> then Some empty_document else None)"

definition demo_Unmarshal :: "string \<Rightarrow> decoded" where
  "demo_Unmarshal s =
     (if s = empty_document then Decoded \<lparr>Keys = [], Lists = GoMap Map.empty\<rparr> else UnmarshalError)"

definition demo_lib :: lib where
  "demo_lib = \<lparr>textinput_Update = typed_field, json_Marshal = demo_Marshal,
                json_Unmarshal = demo_Unmarshal, json_Unmarshal_items = (\<lambda>s. None)\<rparr>"

definition fresh_world :: world where
  "fresh_world = \<lparr>UserHomeDir = Some ''/home/user'', MkdirAll_ok = True, WriteFile_ok = True,
                   files = (\<lambda>p. NotExist)\<rparr>"


text \<open>The state after start-up without a data file, and the state after the list
  \<open>A\<close> has been typed and confirmed there.\<close>

definition start_state :: model where
  "start_state =
     \<lparr>lists_map = GoMap Map.empty, keys = [], selectedList = 0, cursor = 0,
      textInput = \<lparr>ti_value = [], ti_focus = False\<rparr>,
      newListTextInput = \<lparr>ti_value = [], ti_focus = True\<rparr>, listStartOffset = 0\<rparr>"

definition one_list_state :: model where
  "one_list_state =
     \<lparr>lists_map = GoMap [''A'' \<mapsto> []], keys = [''A''], selectedList = 0, cursor = 1,
      textInput = \<lparr>ti_value = [], ti_focus = True\<rparr>,
      newListTextInput = \<lparr>ti_value = [], ti_focus = False\<rparr>, listStartOffset = 1\<rparr>"

text \<open>Two lists \<open>A\<close> and \<open>B\<close>, \<open>B\<close> selected, the cursor on the key row of \<open>A\<close>.\<close>

definition two_lists_state :: model where
  "two_lists_state =
     \<lparr>lists_map = GoMap [''A'' \<mapsto> [], ''B'' \<mapsto> [\<lparr>Item = ''milk'', Completed = False\<rparr>]],
      keys = [''A'', ''B''], selectedList = 1, cursor = 0,
      textInput = \<lparr>ti_value = [], ti_focus = False\<rparr>,
      newListTextInput = \<lparr>ti_value = [], ti_focus = False\<rparr>, listStartOffset = 2\<rparr>"

text \<open>One list \<open>Groceries\<close> holding \<open>milk\<close> and \<open>eggs\<close>, the cursor on \<open>eggs\<close>.\<close>

definition groceries_state :: model where
  "groceries_state =
     \<lparr>lists_map = GoMap [''Groceries'' \<mapsto> [\<lparr>Item = ''milk'', Completed = False\<rparr>,
                                             \<lparr>Item = ''eggs'', Completed = False\<rparr>]],
      keys = [''Groceries''], selectedList = 0, cursor = 2,
      textInput = \<lparr>ti_value = [], ti_focus = False\<rparr>,
      newListTextInput = \<lparr>ti_value = [], ti_focus = False\<rparr>, listStartOffset = 1\<rparr>"

text \<open>The start state after \<open>Groceries\<close> has been typed into the add-list field.\<close>

definition name_typed_state :: model where
  "name_typed_state = start_state\<lparr>newListTextInput := \<lparr>ti_value = ''Groceries'', ti_focus = True\<rparr>\<rparr>"

text \<open>The state \<open>one_list_state\<close> after one \<^verbatim>\<open>up\<close>: the cursor on the key row.\<close>

definition on_first_key_state :: model where
  "on_first_key_state =
     one_list_state\<lparr>cursor := 0, textInput := \<lparr>ti_value = [], ti_focus = False\<rparr>\<rparr>"

text \<open>A state whose only key has no entry in the list mapping.\<close>

definition dangling_key_state :: model where
  "dangling_key_state =
     \<lparr>lists_map = GoMap Map.empty, keys = [''A''], selectedList = 0, cursor = 0,
      textInput = \<lparr>ti_value = [], ti_focus = False\<rparr>,
      newListTextInput = \<lparr>ti_value = [], ti_focus = False\<rparr>, listStartOffset = 1\<rparr>"

text \<open>The fresh world after the snapshot without lists has been written.\<close>

definition saved_world :: world where
  "saved_world =
     fresh_world\<lparr>files := (files fresh_world)(''/home/user/.tui-do/.tui-do.json'' := Contents empty_document)\<rparr>"

text \<open>A data file that holds the document \<^verbatim>\<open>{}\<close>, a decoder that knows it, and the
  state the program starts in there: no keys and a nil list mapping.\<close>

definition bare_document :: string where
  "bare_document = ''{}''"

definition bare_lib :: lib where
  "bare_lib = \<lparr>textinput_Update = typed_field, json_Marshal = (\<lambda>v. None),
                json_Unmarshal = (\<lambda>s. if s = bare_document
                                       then Decoded \<lparr>Keys = [], Lists = NilMap\<rparr>
                                       else UnmarshalError),
                json_Unmarshal_items = (\<lambda>s. None)\<rparr>"

definition bare_world :: world where
  "bare_world = \<lparr>UserHomeDir = Some ''/home/user'', MkdirAll_ok = True, WriteFile_ok = True,
                  files = (\<lambda>p. if p = ''/home/user/.tui-do/.tui-do.json''
                                then Contents bare_document else NotExist)\<rparr>"

definition nil_map_state :: model where
  "nil_map_state =
     \<lparr>lists_map = NilMap, keys = [], selectedList = 0, cursor = 0,
      textInput = \<lparr>ti_value = [], ti_focus = False\<rparr>,
      newListTextInput = \<lparr>ti_value = [], ti_focus = True\<rparr>, listStartOffset = 0\<rparr>"

text \<open>Two lists, the second with two items, the text \<^verbatim>\<open>json.Marshal\<close> writes for them, the
  document that text denotes, and a library that knows this one text.\<close>

definition stocked_state :: model where
  "stocked_state =
     \<lparr>lists_map = GoMap [''Work'' \<mapsto> [],
                         ''Groceries'' \<mapsto> [\<lparr>Item = ''milk'', Completed = False\<rparr>,
                                           \<lparr>Item = ''eggs'', Completed = True\<rparr>]],
      keys = [''Work'', ''Groceries''], selectedList = 1, cursor = 4,
      textInput = \<lparr>ti_value = [], ti_focus = True\<rparr>,
      newListTextInput = \<lparr>ti_value = [], ti_focus = False\<rparr>, listStartOffset = 2\<rparr>"

definition stocked_text :: string where
  "stocked_text = ''{\"keys\":[\"Work\",\"Groceries\"],\"lists\":{\"Groceries\":[{\"item\":\"milk\",\"completed\":false},{\"item\":\"eggs\",\"completed\":true}],\"Work\":[]}}''"

definition stocked_document :: json where
  "stocked_document =
     JObject [(''keys'', JArray [JString ''Work'', JString ''Groceries'']),
              (''lists'', JObject
                 [(''Groceries'', JArray
                     [JObject [(''item'', JString ''milk''), (''completed'', JBool False)],
                      JObject [(''item'', JString ''eggs''), (''completed'', JBool True)]]),
                  (''Work'', JArray [])])]"

definition table_doc :: "string \<Rightarrow> json \<Rightarrow> bool" where
  "table_doc s t \<longleftrightarrow> s = stocked_text \<and> t = stocked_document"

definition table_lib :: lib where
  "table_lib =
     \<lparr>textinput_Update = typed_field,
      json_Marshal = (\<lambda>v. if v = V_jsonData \<lparr>Keys = keys stocked_state, Lists = lists_map stocked_state\<rparr>
                          then Some stocked_text else None),
      json_Unmarshal = (\<lambda>s. if s = stocked_text then jsonData_of_json stocked_document
                            else UnmarshalError),
      json_Unmarshal_items = (\<lambda>s. None)\<rparr>"

definition stocked_world :: world where
  "stocked_world =
     fresh_world\<lparr>files := (files fresh_world)(''/home/user/.tui-do/.tui-do.json'' := Contents stocked_text)\<rparr>"

section \<open>Basic facts\<close>

lemma bindE_Inr_iff: "bindE r f = Inr y \<longleftrightarrow> (\<exists>a. r = Inr a \<and> f a = Inr y)"
  by (cases r) (simp_all add: bindE_def)

lemma bindE_Inr [simp]: "bindE (Inr a) f = f a"
  by (simp add: bindE_def)

lemma bindE_Inl [simp]: "bindE (Inl e) f = Inl e"
  by (simp add: bindE_def)

lemma slice_index_Inr_iff:
  "slice_index xs i = Inr x \<longleftrightarrow> 0 \<le> i \<and> i < int (length xs) \<and> x = xs ! nat i"
  by (auto simp: slice_index_def)

lemma slice_index_in_range: "0 \<le> i \<Longrightarrow> i < int (length xs) \<Longrightarrow> slice_index xs i = Inr (xs ! nat i)"
  by (simp add: slice_index_def)

lemma without_from_past: "d < int i \<Longrightarrow> without_from i d xs = xs"
  by (induction xs arbitrary: i) auto

lemma without_from_take_drop:
  "int i \<le> d \<Longrightarrow>
   without_from i d xs = take (nat (d - int i)) xs @ drop (Suc (nat (d - int i))) xs"
proof (induction xs arbitrary: i)
  case Nil
  then show ?case by simp
next
  case (Cons x xs)
  show ?case
  proof (cases "int i = d")
    case True
    then show ?thesis by (simp add: without_from_past)
  next
    case False
    with Cons.prems have lt: "int (Suc i) \<le> d" by simp
    then have "nat (d - int i) = Suc (nat (d - int (Suc i)))" by simp
    with False Cons.IH [OF lt] show ?thesis by simp
  qed
qed

lemma without_index_take_drop:
  "0 \<le> d \<Longrightarrow> without_index d xs = take (nat d) xs @ drop (Suc (nat d)) xs"
  using without_from_take_drop [of 0 d xs] by (simp add: without_index_def)

lemma length_without_index:
  "0 \<le> d \<Longrightarrow> d < int (length xs) \<Longrightarrow> int (length (without_index d xs)) = int (length xs) - 1"
  by (simp add: without_index_take_drop)

lemma Update_locals_ok:
  assumes "selection_ok m"
  shows "Update_locals m =
           Inr \<lparr>numKeys = int (length (keys m)), items = selected_items m,
                numItems = int (length (selected_items m)),
                inputsCount = (if keys m = [] then 1 else 2),
                total_rows = row_count m, newListIdx = row_count m - 1,
                newItemIdx = (if keys m = [] then - 1 else row_count m - 2),
                itemCursor = cursor m - int (length (keys m))\<rparr>"
  using assms
  by (auto simp: Update_locals_def selection_ok_def selected_items_def row_count_def
      slice_index_def getItemCursor_def Let_def)


lemmas focus_defs = blurTextInput_def blurListTextInput_def focusTextInput_def
  focusListTextInput_def Focus_def Blur_def SetValue_def

lemmas inv_defs = inv_def selection_ok_def row_count_def selected_items_def

lemma inv_fields:
  "inv m \<Longrightarrow> Update_fields L w m msg = Inr (m', c, w') \<Longrightarrow> inv m'"
  by (auto simp: Update_fields_def inv_defs)

lemma inv_quit:
  "inv m \<Longrightarrow> Update_quit L w m (fr) s = Inr (m', c, w') \<Longrightarrow> inv m'"
  by (auto simp: Update_quit_def bindE_Inr_iff dest: inv_fields split: if_splits)


lemma row_count_same:
  assumes "keys m' = keys m" and "lists_map m' = lists_map m"
    and "selectedList m' = selectedList m"
  shows "row_count m' = row_count m"
  using assms by (simp add: row_count_def selected_items_def)

lemma inv_same_nav:
  assumes "inv m" and "keys m' = keys m" and "lists_map m' = lists_map m"
    and "selectedList m' = selectedList m" and "listStartOffset m' = listStartOffset m"
    and "0 \<le> cursor m'" and "cursor m' < row_count m"
  shows "inv m'"
proof -
  have "row_count m' = row_count m" using assms(2-4) by (rule row_count_same)
  moreover have "selection_ok m'" using assms(1-5) by (simp add: inv_def selection_ok_def)
  ultimately show ?thesis using assms(6,7) by (simp add: inv_def)
qed

lemma Update_move_nav:
  assumes "Update_move L w m fr s = Inr (m', c, w')"
  shows "keys m' = keys m" and "lists_map m' = lists_map m"
    and "selectedList m' = selectedList m" and "listStartOffset m' = listStartOffset m"
    and "cursor m' =
           (let c1 = (if s = ''up'' \<or> s = ''shift+tab'' then cursor m - 1 else cursor m + 1)
            in if c1 \<ge> total_rows fr then 0 else if c1 < 0 then total_rows fr - 1 else c1)"
  using assms by (auto simp: Update_move_def Let_def focus_defs split: if_splits)

lemma inv_move:
  assumes "inv m" and "Update_locals m = Inr fr" and "Update_move L w m fr s = Inr (m', c, w')"
  shows "inv m'"
proof -
  have ok: "selection_ok m" using assms(1) by (simp add: inv_def)
  have t: "total_rows fr = row_count m"
    using assms(2) Update_locals_ok [OF ok] by auto
  note nav = Update_move_nav [OF assms(3)]
  have "0 \<le> cursor m" "cursor m < row_count m" using assms(1) by (simp_all add: inv_def)
  then have "0 \<le> cursor m' \<and> cursor m' < row_count m"
    unfolding nav(5) t Let_def by auto
  then show ?thesis using inv_same_nav [OF assms(1) nav(1-4)] by simp
qed


lemma Update_locals_frame: "selection_ok m \<Longrightarrow> Update_locals m = Inr (frame m)"
  by (simp add: Update_locals_ok frame_def)

lemma frame_simps [simp]:
  "numKeys (frame m) = int (length (keys m))"
  "items (frame m) = selected_items m"
  "numItems (frame m) = int (length (selected_items m))"
  "total_rows (frame m) = row_count m"
  "newListIdx (frame m) = row_count m - 1"
  "newItemIdx (frame m) = (if keys m = [] then - 1 else row_count m - 2)"
  "itemCursor (frame m) = cursor m - int (length (keys m))"
  by (simp_all add: frame_def)

lemma Update_KeyMsg:
  assumes "selection_ok m"
  shows "Update L w m (KeyMsg s) =
           (if s = ''ctrl+c'' \<or> s = ''q'' then Update_quit L w m (frame m) s
            else if s = ''d'' then Update_delete L w m (frame m) s
            else if s = ''tab'' \<or> s = ''shift+tab'' \<or> s = ''up'' \<or> s = ''down''
            then Update_move L w m (frame m) s
            else if s = ''enter'' then Update_enter L w m (frame m) s
            else if s = '' '' then Update_space L w m (frame m) s
            else Update_fields L w m (KeyMsg s))"
  by (simp add: Update_def Update_locals_frame [OF assms])

lemma Update_OtherMsg:
  "selection_ok m \<Longrightarrow> Update L w m OtherMsg = Update_fields L w m OtherMsg"
  by (simp add: Update_def Update_locals_frame)

lemma Update_delete_key:
  assumes "0 \<le> cursor m" and "cursor m < int (length (keys m))"
  shows "Update_delete L w m (frame m) s =
     Inr (let i = nat (cursor m);
              ks = take i (keys m) @ drop (Suc i) (keys m);
              mp = map_delete (lists_map m) (keys m ! i);
              sel = (if cursor m = selectedList m
                     then (if cursor m - 1 < 0 then 0 else cursor m - 1)
                     else if cursor m < selectedList m then selectedList m - 1
                     else selectedList m)
          in if ks = []
             then m\<lparr>lists_map := mp, keys := ks, selectedList := 0, cursor := 0,
                    textInput := Blur (textInput m),
                    newListTextInput := Focus (newListTextInput m), listStartOffset := 0\<rparr>
             else m\<lparr>lists_map := mp, keys := ks, selectedList := sel, cursor := sel,
                    textInput := Blur (textInput m),
                    newListTextInput := Blur (newListTextInput m),
                    listStartOffset := int (length ks)\<rparr>, tea_Other, w)"
  using assms
  by (simp add: Update_delete_def slice_index_in_range without_index_take_drop Let_def
      focus_defs)


lemma map_assign_Inr_iff:
  "map_assign mp k v = Inr mp' \<longleftrightarrow> (\<exists>f. mp = GoMap f \<and> mp' = GoMap (f(k \<mapsto> v)))"
  by (cases mp) (auto simp: map_assign_def)

lemma map_index_assign:
  "map_assign mp k v = Inr mp' \<Longrightarrow> map_index mp' k' = (if k' = k then v else map_index mp k')"
  by (auto simp: map_assign_Inr_iff map_index_def)

lemma map_keys_assign:
  "map_assign mp k v = Inr mp' \<Longrightarrow> map_keys mp' = insert k (map_keys mp)"
  by (auto simp: map_assign_Inr_iff map_keys_def)

lemma set_Completed_Inr_iff:
  "set_Completed mp k i b = Inr mp' \<longleftrightarrow>
     (\<exists>f v. mp = GoMap f \<and> f k = Some v \<and> 0 \<le> i \<and> i < int (length v) \<and>
            mp' = GoMap (f(k \<mapsto> v[nat i := (v ! nat i)\<lparr>Completed := b\<rparr>])))"
  by (cases mp) (auto simp: set_Completed_def map_index_def split: option.splits)

lemma map_index_set_Completed:
  "set_Completed mp k i b = Inr mp' \<Longrightarrow>
   map_index mp' k' =
     (if k' = k then (map_index mp k)[nat i := (map_index mp k ! nat i)\<lparr>Completed := b\<rparr>]
      else map_index mp k')"
  by (auto simp: set_Completed_Inr_iff map_index_def)

lemma map_keys_set_Completed:
  "set_Completed mp k i b = Inr mp' \<Longrightarrow> map_keys mp' = map_keys mp"
  by (auto simp: set_Completed_Inr_iff map_keys_def)

lemma inv_delete_key:
  assumes "inv m" and "cursor m < int (length (keys m))"
    and "Update_delete L w m (frame m) s = Inr (m', c, w')"
  shows "inv m'"
proof -
  have c0: "0 \<le> cursor m" and ok: "selection_ok m" using assms(1) by (simp_all add: inv_def)
  define i where "i = nat (cursor m)"
  define ks where "ks = take i (keys m) @ drop (Suc i) (keys m)"
  have len: "int (length ks) = int (length (keys m)) - 1"
    using c0 assms(2) by (simp add: ks_def i_def)
  show ?thesis
  proof (cases "ks = []")
    case True
    with assms(3) show ?thesis
      unfolding Update_delete_key [OF c0 assms(2)] Let_def
      by (auto simp: inv_defs ks_def i_def)
  next
    case False
    then have pos: "0 < int (length ks)" by simp
    from False assms(3) have nav: "keys m' = ks"
        "selectedList m' = (if cursor m = selectedList m
                     then (if cursor m - 1 < 0 then 0 else cursor m - 1)
                     else if cursor m < selectedList m then selectedList m - 1
                     else selectedList m)"
        "cursor m' = selectedList m'" "listStartOffset m' = int (length ks)"
      unfolding Update_delete_key [OF c0 assms(2)] Let_def
      by (auto simp: ks_def i_def)
    have sel: "0 \<le> selectedList m" "selectedList m < int (length (keys m))"
      using ok assms(2) c0 by (auto simp: selection_ok_def)
    have "0 \<le> selectedList m' \<and> selectedList m' < int (length ks)"
      unfolding nav(2) using sel c0 assms(2) len pos by auto
    then show ?thesis using nav False
      by (auto simp: inv_defs)
  qed
qed


lemma map_index_nonempty:
  "map_index mp k \<noteq> [] \<Longrightarrow> \<exists>f. mp = GoMap f \<and> f k = Some (map_index mp k)"
  by (cases mp) (auto simp: map_index_def split: option.splits)

lemma Update_delete_item:
  assumes ok: "selection_ok m"
    and lo: "int (length (keys m)) \<le> cursor m"
    and hi: "cursor m < int (length (keys m)) + int (length (selected_items m))"
  shows "\<exists>f. lists_map m = GoMap f \<and>
             f (keys m ! nat (selectedList m)) = Some (selected_items m) \<and>
             Update_delete L w m (frame m) s =
               Update_fields L w
                 (m\<lparr>cursor := int (length (selected_items m)) - 2 + int (length (keys m)),
                    lists_map :=
                       GoMap (f(keys m ! nat (selectedList m) \<mapsto>
                          take (nat (cursor m - int (length (keys m)))) (selected_items m)
                          @ drop (Suc (nat (cursor m - int (length (keys m))))) (selected_items m)))\<rparr>)
                 (KeyMsg s)"
proof -
  from lo hi have ne: "selected_items m \<noteq> []" by auto
  then have kne: "keys m \<noteq> []" by (auto simp: selected_items_def)
  with ok have sel: "0 \<le> selectedList m" "selectedList m < int (length (keys m))"
    and off: "listStartOffset m = int (length (keys m))"
    by (auto simp: selection_ok_def)
  from kne have its: "selected_items m = map_index (lists_map m) (keys m ! nat (selectedList m))"
    by (simp add: selected_items_def)
  with ne obtain f where f: "lists_map m = GoMap f"
      "f (keys m ! nat (selectedList m)) = Some (selected_items m)"
    using map_index_nonempty [of "lists_map m" "keys m ! nat (selectedList m)"] by auto
  have len: "int (length (without_index (cursor m - int (length (keys m))) (selected_items m)))
        = int (length (selected_items m)) - 1"
    using lo hi by (simp add: length_without_index)
  have "Update_delete L w m (frame m) s =
               Update_fields L w
                 (m\<lparr>cursor := int (length (selected_items m)) - 2 + int (length (keys m)),
                    lists_map :=
                       GoMap (f(keys m ! nat (selectedList m) \<mapsto>
                          take (nat (cursor m - int (length (keys m)))) (selected_items m)
                          @ drop (Suc (nat (cursor m - int (length (keys m))))) (selected_items m)))\<rparr>)
                 (KeyMsg s)"
    using lo hi sel off f len
    by (simp add: Update_delete_def Let_def setCursor_def slice_index_in_range map_assign_def
        without_index_take_drop [symmetric])
  with f show ?thesis by blast
qed

lemma inv_delete_item:
  assumes "inv m" and "int (length (keys m)) \<le> cursor m"
    and "cursor m < int (length (keys m)) + int (length (selected_items m))"
    and "Update_delete L w m (frame m) s = Inr (m', c, w')"
  shows "inv m'"
proof -
  have ok: "selection_ok m" using assms(1) by (simp add: inv_def)
  from assms(2,3) have ne: "selected_items m \<noteq> []" by auto
  then have kne: "keys m \<noteq> []" by (auto simp: selected_items_def)
  define j where "j = nat (cursor m - int (length (keys m)))"
  define k where "k = keys m ! nat (selectedList m)"
  from Update_delete_item [OF ok assms(2,3), of L w s]
  obtain f where f: "lists_map m = GoMap f"
    and upd: "Update_delete L w m (frame m) s =
               Update_fields L w
                 (m\<lparr>cursor := int (length (selected_items m)) - 2 + int (length (keys m)),
                    lists_map := GoMap (f(k \<mapsto> take j (selected_items m) @ drop (Suc j) (selected_items m)))\<rparr>)
                 (KeyMsg s)"
    unfolding j_def k_def by blast
  from upd assms(4) have nav: "keys m' = keys m" "selectedList m' = selectedList m"
      "listStartOffset m' = listStartOffset m"
      "cursor m' = int (length (selected_items m)) - 2 + int (length (keys m))"
      "lists_map m' = GoMap (f(k \<mapsto> take j (selected_items m) @ drop (Suc j) (selected_items m)))"
    by (auto simp: Update_fields_def)
  define n where "n = int (length (selected_items m))"
  define K where "K = int (length (keys m))"
  have n1: "1 \<le> n" using ne unfolding n_def by (cases "selected_items m") simp_all
  have K1: "1 \<le> K" using kne unfolding K_def by (cases "keys m") simp_all
  have "j < length (selected_items m)" using assms(2,3) by (simp add: j_def)
  then have "int (length (selected_items m')) = n - 1"
    using kne unfolding n_def by (simp add: selected_items_def nav map_index_def k_def)
  then have rc: "row_count m' = K + (n - 1) + 2"
    using kne by (simp add: row_count_def nav K_def)
  have cur: "cursor m' = n - 2 + K" by (simp add: nav n_def K_def)
  have "selection_ok m'" using ok nav by (simp add: selection_ok_def)
  then show ?thesis unfolding inv_def rc cur using n1 K1 by simp
qed

lemma inv_delete:
  assumes "inv m" and "Update_delete L w m (frame m) s = Inr (m', c, w')"
  shows "inv m'"
proof -
  consider "cursor m < int (length (keys m))"
    | "int (length (keys m)) \<le> cursor m"
      "cursor m < int (length (keys m)) + int (length (selected_items m))"
    | "int (length (keys m)) + int (length (selected_items m)) \<le> cursor m"
    by linarith
  then show ?thesis
  proof cases
    case 1
    show ?thesis by (rule inv_delete_key [OF assms(1) 1 assms(2)])
  next
    case 2
    show ?thesis by (rule inv_delete_item [OF assms(1) 2 assms(2)])
  next
    case 3
    then have "Update_delete L w m (frame m) s = Update_fields L w m (KeyMsg s)"
      by (simp add: Update_delete_def)
    with assms show ?thesis by (auto dest: inv_fields)
  qed
qed


lemma Update_enter_key:
  "cursor m < int (length (keys m)) \<Longrightarrow>
   Update_enter L w m (frame m) s = Update_fields L w (m\<lparr>selectedList := cursor m\<rparr>) (KeyMsg s)"
  by (simp add: Update_enter_def)

lemma toggle_item:
  assumes ok: "selection_ok m"
    and lo: "int (length (keys m)) \<le> cursor m"
    and hi: "cursor m < int (length (keys m)) + int (length (selected_items m))"
  shows "\<exists>f. lists_map m = GoMap f \<and>
           f (keys m ! nat (selectedList m)) = Some (selected_items m) \<and>
           bindE (slice_index (items (frame m)) (itemCursor (frame m))) (\<lambda>it.
             let completed = Completed it in
             bindE (slice_index (keys m) (selectedList m)) (\<lambda>k.
             bindE (set_Completed (lists_map m) k (itemCursor (frame m)) (\<not> completed)) (\<lambda>lists'.
             Update_fields L w (m\<lparr>lists_map := lists'\<rparr>) (KeyMsg s)))) =
           Update_fields L w
             (m\<lparr>lists_map := GoMap (f(keys m ! nat (selectedList m) \<mapsto>
                 (selected_items m)[nat (cursor m - int (length (keys m))) :=
                    (selected_items m ! nat (cursor m - int (length (keys m))))
                      \<lparr>Completed := \<not> Completed (selected_items m ! nat (cursor m - int (length (keys m))))\<rparr>]))\<rparr>)
             (KeyMsg s)"
proof -
  from lo hi have ne: "selected_items m \<noteq> []" by auto
  then have kne: "keys m \<noteq> []" by (auto simp: selected_items_def)
  with ok have sel: "0 \<le> selectedList m" "selectedList m < int (length (keys m))"
    by (auto simp: selection_ok_def)
  from kne have its: "map_index (lists_map m) (keys m ! nat (selectedList m)) = selected_items m"
    by (simp add: selected_items_def)
  with ne obtain f where f: "lists_map m = GoMap f"
      "f (keys m ! nat (selectedList m)) = Some (selected_items m)"
    using map_index_nonempty [of "lists_map m" "keys m ! nat (selectedList m)"] by auto
  show ?thesis
    apply (rule exI [of _ f])
    using lo hi sel f its
    by (simp add: slice_index_in_range set_Completed_def Let_def)
qed

lemma Update_enter_item:
  assumes ok: "selection_ok m"
    and lo: "int (length (keys m)) \<le> cursor m"
    and hi: "cursor m < int (length (keys m)) + int (length (selected_items m))"
  shows "\<exists>f. lists_map m = GoMap f \<and>
           f (keys m ! nat (selectedList m)) = Some (selected_items m) \<and>
           Update_enter L w m (frame m) s =
           Update_fields L w
             (m\<lparr>lists_map := GoMap (f(keys m ! nat (selectedList m) \<mapsto>
                 (selected_items m)[nat (cursor m - int (length (keys m))) :=
                    (selected_items m ! nat (cursor m - int (length (keys m))))
                      \<lparr>Completed := \<not> Completed (selected_items m ! nat (cursor m - int (length (keys m))))\<rparr>]))\<rparr>)
             (KeyMsg s)"
  using toggle_item [OF assms, of L w s] lo hi by (simp add: Update_enter_def)

lemma Update_space_item:
  assumes ok: "selection_ok m"
    and lo: "int (length (keys m)) \<le> cursor m"
    and hi: "cursor m < int (length (keys m)) + int (length (selected_items m))"
  shows "\<exists>f. lists_map m = GoMap f \<and>
           f (keys m ! nat (selectedList m)) = Some (selected_items m) \<and>
           Update_space L w m (frame m) s =
           Update_fields L w
             (m\<lparr>lists_map := GoMap (f(keys m ! nat (selectedList m) \<mapsto>
                 (selected_items m)[nat (cursor m - int (length (keys m))) :=
                    (selected_items m ! nat (cursor m - int (length (keys m))))
                      \<lparr>Completed := \<not> Completed (selected_items m ! nat (cursor m - int (length (keys m))))\<rparr>]))\<rparr>)
             (KeyMsg s)"
  using toggle_item [OF assms, of L w s] lo hi by (simp add: Update_space_def)

lemma Update_space_other:
  "\<not> (int (length (keys m)) \<le> cursor m \<and>
      cursor m < int (length (keys m)) + int (length (selected_items m))) \<Longrightarrow>
   Update_space L w m (frame m) s = Update_fields L w m (KeyMsg s)"
  by (auto simp: Update_space_def)


lemma Update_enter_add_item:
  assumes ok: "selection_ok m" and kne: "keys m \<noteq> []"
    and cur: "cursor m = int (length (keys m)) + int (length (selected_items m))"
  shows "Update_enter L w m (frame m) s =
     (if TrimSpace (ti_value (textInput m)) = [] then Update_fields L w m (KeyMsg s)
      else (case lists_map m of
              NilMap \<Rightarrow> Inl NilMapWrite
            | GoMap f \<Rightarrow>
                Inr (m\<lparr>lists_map := GoMap (f(keys m ! nat (selectedList m) \<mapsto>
                          selected_items m
                          @ [\<lparr>Item = TrimSpace (ti_value (textInput m)), Completed = False\<rparr>])),
                       cursor := cursor m + 1,
                       textInput := SetValue [] (textInput m)\<rparr>, tea_Other, w)))"
proof -
  from ok kne have sel: "0 \<le> selectedList m" "selectedList m < int (length (keys m))"
    by (auto simp: selection_ok_def)
  from kne have rc: "row_count m = int (length (keys m)) + int (length (selected_items m)) + 2"
    by (simp add: row_count_def)
  show ?thesis
    using sel cur kne rc
    by (simp add: Update_enter_def Let_def slice_index_in_range map_assign_def
        split: gomap.splits)
qed

lemma Update_enter_add_list:
  assumes cur: "cursor m = row_count m - 1"
  shows "Update_enter L w m (frame m) s =
     (if TrimSpace (ti_value (newListTextInput m)) = [] then Update_fields L w m (KeyMsg s)
      else (case lists_map m of
              NilMap \<Rightarrow> Inl NilMapWrite
            | GoMap f \<Rightarrow>
                Inr (m\<lparr>lists_map := GoMap (f(TrimSpace (ti_value (newListTextInput m)) \<mapsto> [])),
                       keys := keys m @ [TrimSpace (ti_value (newListTextInput m))],
                       selectedList := int (length (keys m)),
                       cursor := int (length (keys m)) + 1,
                       textInput := Focus (textInput m),
                       newListTextInput := Blur (SetValue [] (newListTextInput m)),
                       listStartOffset := int (length (keys m)) + 1\<rparr>, tea_Other, w)))"
proof -
  have rc: "row_count m = int (length (keys m)) + int (length (selected_items m))
      + (if keys m = [] then 1 else 2)"
    by (simp add: row_count_def)
  show ?thesis
    using cur rc
    by (simp add: Update_enter_def Let_def map_assign_def focus_defs split: gomap.splits)
qed


lemma inv_toggled:
  assumes "inv m" and "lists_map m = GoMap f"
    and "f (keys m ! nat (selectedList m)) = Some (selected_items m)"
    and "Update_fields L w
           (m\<lparr>lists_map := GoMap (f(keys m ! nat (selectedList m) \<mapsto> (selected_items m)[j := x]))\<rparr>)
           msg = Inr (m', c, w')"
  shows "inv m'"
proof -
  from assms(4) have nav: "keys m' = keys m" "selectedList m' = selectedList m"
      "listStartOffset m' = listStartOffset m" "cursor m' = cursor m"
      "lists_map m' = GoMap (f(keys m ! nat (selectedList m) \<mapsto> (selected_items m)[j := x]))"
    by (auto simp: Update_fields_def)
  have "length (selected_items m') = length (selected_items m)"
    by (simp add: selected_items_def nav map_index_def)
  then have "row_count m' = row_count m" by (simp add: row_count_def nav)
  moreover have "selection_ok m'" using assms(1) nav by (simp add: inv_def selection_ok_def)
  ultimately show ?thesis using assms(1) nav(4) by (simp add: inv_def)
qed

lemma inv_space:
  assumes "inv m" and "Update_space L w m (frame m) s = Inr (m', c, w')"
  shows "inv m'"
proof (cases "int (length (keys m)) \<le> cursor m \<and>
      cursor m < int (length (keys m)) + int (length (selected_items m))")
  case True
  have ok: "selection_ok m" using assms(1) by (simp add: inv_def)
  from True Update_space_item [OF ok, of L w s]
  obtain f where f: "lists_map m = GoMap f"
      "f (keys m ! nat (selectedList m)) = Some (selected_items m)"
    and upd: "Update_space L w m (frame m) s =
           Update_fields L w
             (m\<lparr>lists_map := GoMap (f(keys m ! nat (selectedList m) \<mapsto>
                 (selected_items m)[nat (cursor m - int (length (keys m))) :=
                    (selected_items m ! nat (cursor m - int (length (keys m))))
                      \<lparr>Completed := \<not> Completed (selected_items m ! nat (cursor m - int (length (keys m))))\<rparr>]))\<rparr>)
             (KeyMsg s)"
    by blast
  show ?thesis
    by (rule inv_toggled [OF assms(1) f assms(2) [unfolded upd]])
next
  case False
  with assms show ?thesis by (auto simp: Update_space_other dest: inv_fields)
qed

lemma inv_enter:
  assumes "inv m" and "Update_enter L w m (frame m) s = Inr (m', c, w')"
  shows "inv m'"
proof -
  have ok: "selection_ok m" and c0: "0 \<le> cursor m" and c1: "cursor m < row_count m"
    using assms(1) by (simp_all add: inv_def)
  define K where "K = int (length (keys m))"
  define n where "n = int (length (selected_items m))"
  have rc: "row_count m = K + n + (if keys m = [] then 1 else 2)"
    by (simp add: row_count_def K_def n_def)
  have n0: "keys m = [] \<Longrightarrow> n = 0" by (simp add: n_def selected_items_def)
  have K0: "keys m = [] \<Longrightarrow> K = 0" by (simp add: K_def)
  have "cursor m < K \<or> (K \<le> cursor m \<and> cursor m < K + n)
      \<or> (keys m \<noteq> [] \<and> cursor m = K + n) \<or> cursor m = row_count m - 1"
  proof (cases "keys m = []")
    case True
    with c0 c1 rc n0 K0 show ?thesis by simp
  next
    case False
    with c0 c1 rc show ?thesis by simp linarith
  qed
  then consider (key) "cursor m < K" | (item) "K \<le> cursor m" "cursor m < K + n"
    | (add_item) "keys m \<noteq> []" "cursor m = K + n" | (add_list) "cursor m = row_count m - 1"
    by blast
  then show ?thesis
  proof cases
    case key
    with assms(2) have nav: "keys m' = keys m" "selectedList m' = cursor m"
        "listStartOffset m' = listStartOffset m" "cursor m' = cursor m"
      by (auto simp: Update_enter_key K_def Update_fields_def)
    from key have kne: "keys m \<noteq> []" using c0 by (auto simp: K_def)
    have "selection_ok m'" using ok nav key c0 by (simp add: selection_ok_def K_def)
    moreover have "cursor m' < row_count m'"
      using key kne by (simp add: row_count_def nav K_def)
    ultimately show ?thesis using c0 nav(4) by (simp add: inv_def)
  next
    case item
    with Update_enter_item [OF ok, of L w s]
    obtain f where f: "lists_map m = GoMap f"
        "f (keys m ! nat (selectedList m)) = Some (selected_items m)"
      and upd: "Update_enter L w m (frame m) s =
           Update_fields L w
             (m\<lparr>lists_map := GoMap (f(keys m ! nat (selectedList m) \<mapsto>
                 (selected_items m)[nat (cursor m - int (length (keys m))) :=
                    (selected_items m ! nat (cursor m - int (length (keys m))))
                      \<lparr>Completed := \<not> Completed (selected_items m ! nat (cursor m - int (length (keys m))))\<rparr>]))\<rparr>)
             (KeyMsg s)"
      unfolding K_def n_def by blast
    show ?thesis
      by (rule inv_toggled [OF assms(1) f assms(2) [unfolded upd]])
  next
    case add_item
    have cur: "cursor m = int (length (keys m)) + int (length (selected_items m))"
      using add_item(2) by (simp add: K_def n_def)
    show ?thesis
    proof (cases "TrimSpace (ti_value (textInput m)) = []")
      case True
      with assms show ?thesis
        by (auto simp: Update_enter_add_item [OF ok add_item(1) cur] dest: inv_fields)
    next
      case False
      with assms(2) obtain f where f: "lists_map m = GoMap f"
        and nav: "keys m' = keys m" "selectedList m' = selectedList m"
          "listStartOffset m' = listStartOffset m" "cursor m' = cursor m + 1"
          "lists_map m' = GoMap (f(keys m ! nat (selectedList m) \<mapsto>
                          selected_items m
                          @ [\<lparr>Item = TrimSpace (ti_value (textInput m)), Completed = False\<rparr>]))"
        by (auto simp: Update_enter_add_item [OF ok add_item(1) cur] split: gomap.splits)
      have "int (length (selected_items m')) = n + 1"
        using add_item(1) by (simp add: selected_items_def nav map_index_def n_def)
      then have "row_count m' = K + (n + 1) + 2"
        using add_item(1) by (simp add: row_count_def nav K_def)
      moreover have "selection_ok m'" using ok nav by (simp add: selection_ok_def)
      moreover have "0 \<le> K" "0 \<le> n" by (simp_all add: K_def n_def)
      ultimately show ?thesis unfolding inv_def nav(4) add_item(2) by simp
    qed
  next
    case add_list
    show ?thesis
    proof (cases "TrimSpace (ti_value (newListTextInput m)) = []")
      case True
      with assms show ?thesis
        by (auto simp: Update_enter_add_list [OF add_list] dest: inv_fields)
    next
      case False
      define t where "t = TrimSpace (ti_value (newListTextInput m))"
      from False assms(2) obtain f where f: "lists_map m = GoMap f"
        and nav: "keys m' = keys m @ [t]" "selectedList m' = K"
          "listStartOffset m' = K + 1" "cursor m' = K + 1"
          "lists_map m' = GoMap (f(t \<mapsto> []))"
        by (auto simp: Update_enter_add_list [OF add_list] K_def t_def split: gomap.splits)
      have "selected_items m' = []"
        by (simp add: selected_items_def nav map_index_def K_def)
      then have "row_count m' = (K + 1) + 0 + 2"
        by (simp add: row_count_def nav K_def)
      moreover have "selection_ok m'" using nav by (simp add: selection_ok_def K_def)
      moreover have "0 \<le> K" by (simp add: K_def)
      ultimately show ?thesis unfolding inv_def nav(4) by simp
    qed
  qed
qed


lemma initialModel_fields:
  assumes "initialModel L w = Inr m"
  shows "\<exists>mp ks. loadItems L w = Inr (mp, ks) \<and>
           m = \<lparr>lists_map = mp, keys = ks, selectedList = 0,
                 cursor = (if ks = [] then 0 else int (length (map_index mp (ks ! 0))) + int (length ks)),
                 textInput = \<lparr>ti_value = [], ti_focus = (ks \<noteq> [])\<rparr>,
                 newListTextInput = \<lparr>ti_value = [], ti_focus = (ks = [])\<rparr>,
                 listStartOffset = int (length ks)\<rparr>"
proof -
  from assms obtain mp ks where ld: "loadItems L w = Inr (mp, ks)"
    by (cases "loadItems L w") (auto simp: initialModel_def)
  show ?thesis
  proof (cases "ks = []")
    case True
    with assms ld show ?thesis
      by (simp add: initialModel_def Let_def focus_defs textinput_New_def)
  next
    case False
    then have "slice_index ks 0 = Inr (ks ! 0)" by (simp add: slice_index_def)
    with False assms ld show ?thesis
      by (simp add: initialModel_def Let_def focus_defs textinput_New_def)
  qed
qed

lemma inv_initial:
  assumes "initialModel L w = Inr m"
  shows "inv m"
proof -
  from initialModel_fields [OF assms] obtain mp ks where
    m: "m = \<lparr>lists_map = mp, keys = ks, selectedList = 0,
                 cursor = (if ks = [] then 0 else int (length (map_index mp (ks ! 0))) + int (length ks)),
                 textInput = \<lparr>ti_value = [], ti_focus = (ks \<noteq> [])\<rparr>,
                 newListTextInput = \<lparr>ti_value = [], ti_focus = (ks = [])\<rparr>,
                 listStartOffset = int (length ks)\<rparr>"
    by blast
  show ?thesis unfolding m by (simp add: inv_defs)
qed

lemma inv_Update:
  assumes "inv m" and "Update L w m msg = Inr (m', c, w')"
  shows "inv m'"
proof -
  have ok: "selection_ok m" using assms(1) by (simp add: inv_def)
  show ?thesis
  proof (cases msg)
    case OtherMsg
    with assms ok show ?thesis by (auto simp: Update_OtherMsg dest: inv_fields)
  next
    case (KeyMsg s)
    have "Update_locals m = Inr (frame m)" using ok by (rule Update_locals_frame)
    note U = assms(2) [unfolded KeyMsg Update_KeyMsg [OF ok]]
    from U
    consider "Update_quit L w m (frame m) s = Inr (m', c, w')"
      | "Update_delete L w m (frame m) s = Inr (m', c, w')"
      | "Update_move L w m (frame m) s = Inr (m', c, w')"
      | "Update_enter L w m (frame m) s = Inr (m', c, w')"
      | "Update_space L w m (frame m) s = Inr (m', c, w')"
      | "Update_fields L w m (KeyMsg s) = Inr (m', c, w')"
      by (auto split: if_splits)
    then show ?thesis
    proof cases
      case 1 show ?thesis by (rule inv_quit [OF assms(1) 1])
    next
      case 2 show ?thesis by (rule inv_delete [OF assms(1) 2])
    next
      case 3 show ?thesis
        by (rule inv_move [OF assms(1) \<open>Update_locals m = Inr (frame m)\<close> 3])
    next
      case 4 show ?thesis by (rule inv_enter [OF assms(1) 4])
    next
      case 5 show ?thesis by (rule inv_space [OF assms(1) 5])
    next
      case 6 show ?thesis by (rule inv_fields [OF assms(1) 6])
    qed
  qed
qed

lemma reachable_inv: "reachable L m \<Longrightarrow> inv m"
  by (induction rule: reachable.induct) (auto intro: inv_initial inv_Update)

lemma reachable_selection_ok: "reachable L m \<Longrightarrow> selection_ok m"
  using reachable_inv [of L m] by (simp add: inv_def)

subsection \<open>The list mapping stays allocated\<close>

text \<open>No event turns an allocated mapping into a nil map, and start-up without a data
  file, or with an empty one, allocates it.\<close>

lemma allocated_fields:
  "allocated m \<Longrightarrow> Update_fields L w m msg = Inr (m', c, w') \<Longrightarrow> allocated m'"
  by (auto simp: Update_fields_def allocated_def)

lemma allocated_quit:
  "allocated m \<Longrightarrow> Update_quit L w m fr s = Inr (m', c, w') \<Longrightarrow> allocated m'"
  by (auto simp: Update_quit_def bindE_Inr_iff dest: allocated_fields split: if_splits)

lemma allocated_move:
  "allocated m \<Longrightarrow> Update_move L w m fr s = Inr (m', c, w') \<Longrightarrow> allocated m'"
  using Update_move_nav(2) [of L w m fr s m' c w'] by (simp add: allocated_def)

lemma allocated_delete:
  "allocated m \<Longrightarrow> Update_delete L w m fr s = Inr (m', c, w') \<Longrightarrow> allocated m'"
  by (auto simp: Update_delete_def Update_fields_def allocated_def bindE_Inr_iff
      map_assign_Inr_iff map_delete_def Let_def focus_defs setCursor_def
      split: if_splits gomap.splits)

lemma allocated_enter:
  "allocated m \<Longrightarrow> Update_enter L w m fr s = Inr (m', c, w') \<Longrightarrow> allocated m'"
  by (auto simp: Update_enter_def Update_fields_def allocated_def bindE_Inr_iff
      map_assign_Inr_iff set_Completed_Inr_iff Let_def focus_defs
      split: if_splits)

lemma allocated_space:
  "allocated m \<Longrightarrow> Update_space L w m fr s = Inr (m', c, w') \<Longrightarrow> allocated m'"
  by (auto simp: Update_space_def Update_fields_def allocated_def bindE_Inr_iff
      set_Completed_Inr_iff Let_def split: if_splits)

lemma allocated_Update:
  assumes "allocated m" and "Update L w m msg = Inr (m', c, w')"
  shows "allocated m'"
proof -
  from assms(2) obtain fr where fr: "Update_locals m = Inr fr"
    by (auto simp: Update_def bindE_Inr_iff)
  show ?thesis
  proof (cases msg)
    case OtherMsg
    with assms fr show ?thesis by (auto simp: Update_def dest: allocated_fields)
  next
    case (KeyMsg s)
    with assms(2) fr
    consider "Update_quit L w m fr s = Inr (m', c, w')"
      | "Update_delete L w m fr s = Inr (m', c, w')"
      | "Update_move L w m fr s = Inr (m', c, w')"
      | "Update_enter L w m fr s = Inr (m', c, w')"
      | "Update_space L w m fr s = Inr (m', c, w')"
      | "Update_fields L w m (KeyMsg s) = Inr (m', c, w')"
      by (auto simp: Update_def split: if_splits)
    then show ?thesis
      using assms(1)
      by cases (auto dest: allocated_quit allocated_delete allocated_move allocated_enter
          allocated_space allocated_fields)
  qed
qed

lemma allocated_without_file:
  assumes "UserHomeDir w = Some h"
    and "files w (filepath_Join [h, dirName, fileName]) = NotExist
         \<or> files w (filepath_Join [h, dirName, fileName]) = Contents []"
    and "initialModel L w = Inr m"
  shows "allocated m"
proof -
  from assms(1,2) have "loadItems L w = Inr (GoMap Map.empty, [])"
    by (auto simp: loadItems_def)
  with initialModel_fields [OF assms(3)] show ?thesis by (auto simp: allocated_def)
qed

lemma screenItems_length:
  assumes "selection_ok m"
  shows "\<exists>rows. screenItems m = Inr rows \<and> int (length rows) = row_count m"
  using assms
  by (auto simp: screenItems_def selection_ok_def row_count_def selected_items_def
      slice_index_def Let_def)

section \<open>Evaluating the program on concrete inputs\<close>

lemmas demo_defs = demo_lib_def fresh_world_def typed_field_def demo_Marshal_def
  demo_Unmarshal_def empty_document_def

lemmas Update_defs = Update_def Update_locals_def Update_quit_def Update_delete_def
  Update_move_def Update_enter_def Update_space_def Update_fields_def getItemCursor_def
  setCursor_def slice_index_def map_index_def map_assign_def map_delete_def set_Completed_def
  TrimSpace_def isSpace_def without_index_def

lemma initialModel_fresh: "initialModel demo_lib fresh_world = Inr start_state"
  by (simp add: initialModel_def loadItems_def demo_defs dirName_def fileName_def
      focus_defs textinput_New_def start_state_def)

lemma reachable_run:
  "reachable L m \<Longrightarrow> run_events L w m es = Inr m' \<Longrightarrow> reachable L m'"
proof (induction es arbitrary: m w)
  case Nil
  then show ?case by simp
next
  case (Cons e es)
  from Cons.prems(2) obtain m1 c1 w1 where
    st: "Update L w m e = Inr (m1, c1, w1)" and rest: "run_events L w1 m1 es = Inr m'"
    by (cases "Update L w m e") auto
  from Cons.prems(1) st have "reachable L m1" by (rule reachable.event)
  then show ?case using rest by (rule Cons.IH)
qed

lemma start_state_reachable: "reachable demo_lib start_state"
  by (rule reachable.start [OF initialModel_fresh])

lemma one_list_run:
  "run_events demo_lib fresh_world start_state [KeyMsg ''A'', KeyMsg ''enter''] = Inr one_list_state"
  by (simp add: start_state_def one_list_state_def Update_defs demo_defs focus_defs Let_def)

lemma one_list_state_reachable: "reachable demo_lib one_list_state"
  by (rule reachable_run [OF start_state_reachable one_list_run])

section \<open>The cursor stays on a row\<close>

text \<open>
  C1.  In every state the program can reach (start-up from whatever snapshot the file
  holds, then any sequence of messages that does not end the run), \<^verbatim>\<open>Update\<close>'s \<open>total\<close>
  is the number of keys plus the number of items of the selected list plus two input
  rows when a key exists and one otherwise; it is the length of \<^verbatim>\<open>screenItems\<close>; and
  the cursor lies in \<open>0 .. total - 1\<close>.  The total is a function of the state reached, so
  it is the one after the mutation.
\<close>

theorem cursor_in_range:
  assumes "reachable L m"
  shows "\<exists>c rows. Update_locals m = Inr c \<and> total_rows c = row_count m \<and>
           screenItems m = Inr rows \<and> int (length rows) = total_rows c \<and>
           0 \<le> cursor m \<and> cursor m \<le> total_rows c - 1"
proof -
  have i: "inv m" using assms by (rule reachable_inv)
  then have ok: "selection_ok m" by (simp add: inv_def)
  from screenItems_length [OF ok] obtain rows where
    "screenItems m = Inr rows" "int (length rows) = row_count m" by blast
  with i Update_locals_frame [OF ok] show ?thesis by (simp add: inv_def)
qed

theorem cursor_in_range_witness:
  "reachable demo_lib one_list_state \<and>
   (\<exists>c rows. Update_locals one_list_state = Inr c \<and> total_rows c = 3 \<and>
      screenItems one_list_state = Inr rows \<and> int (length rows) = 3 \<and>
      cursor one_list_state = 1)"
  using cursor_in_range [OF one_list_state_reachable] one_list_state_reachable
  by (auto simp: one_list_state_def row_count_def selected_items_def map_index_def)

section \<open>The cached offset\<close>

text \<open>
  C10.  In every reachable state \<^verbatim>\<open>listStartOffset\<close> is the number of keys, so
  \<^verbatim>\<open>getItemCursor\<close> subtracts and \<^verbatim>\<open>setCursor\<close> adds the true key count; add-list and
  delete-list, which change the key count, lead to reachable states again.
\<close>

theorem listStartOffset_is_key_count:
  assumes "reachable L m"
  shows "listStartOffset m = int (length (keys m)) \<and>
         getItemCursor m = cursor m - int (length (keys m)) \<and>
         (\<forall>new. cursor (setCursor m new) = new + int (length (keys m)))"
proof -
  have "inv m" using assms by (rule reachable_inv)
  then have "listStartOffset m = int (length (keys m))"
    by (simp add: inv_def selection_ok_def)
  then show ?thesis by (simp add: getItemCursor_def setCursor_def)
qed

theorem listStartOffset_is_key_count_witness:
  "reachable demo_lib one_list_state \<and> listStartOffset one_list_state = 1 \<and>
   length (keys one_list_state) = 1 \<and> getItemCursor one_list_state = 0 \<and>
   cursor (setCursor one_list_state 0) = 1"
  using listStartOffset_is_key_count [OF one_list_state_reachable] one_list_state_reachable
  by (simp add: one_list_state_def)

section \<open>Moving the cursor\<close>

text \<open>
  C2.  The claim says the focus after a move is the one the wrapped cursor asks for.
  \<^verbatim>\<open>Update\<close> picks the focus from \<^verbatim>\<open>m.cursor\<close> right after the increment or
  decrement and wraps afterwards, so a move that wraps is focused for a row that does not
  exist: from row 0, \<^verbatim>\<open>up\<close> or \<^verbatim>\<open>shift+tab\<close> puts the cursor on the add-list row
  (\<^verbatim>\<open>newListIdx\<close> of the state reached) and leaves both fields blurred.
\<close>

theorem move_up_from_first_row:
  assumes ok: "selection_ok m" and first: "cursor m = 0"
    and up: "s = ''up'' \<or> s = ''shift+tab''"
  shows "\<exists>m' c. Update L w m (KeyMsg s) = Inr (m', tea_Other, w) \<and>
           Update_locals m' = Inr c \<and> cursor m' = newListIdx c \<and>
           cursor m' = row_count m - 1 \<and>
           \<not> ti_focus (newListTextInput m') \<and> \<not> ti_focus (textInput m')"
proof -
  define m' where "m' = m\<lparr>cursor := row_count m - 1, textInput := Blur (textInput m),
      newListTextInput := Blur (newListTextInput m)\<rparr>"
  have rc: "1 \<le> row_count m" by (simp add: row_count_def)
  have "Update L w m (KeyMsg s) = Update_move L w m (frame m) s"
    using up by (auto simp: Update_KeyMsg [OF ok])
  also have "\<dots> = Inr (m', tea_Other, w)"
    using up first rc by (auto simp: Update_move_def Let_def focus_defs m'_def)
  finally have step: "Update L w m (KeyMsg s) = Inr (m', tea_Other, w)" .
  have ok': "selection_ok m'" using ok by (simp add: selection_ok_def m'_def)
  have "row_count m' = row_count m" by (rule row_count_same) (simp_all add: m'_def)
  then have "Update_locals m' = Inr (frame m') \<and> cursor m' = newListIdx (frame m')"
    using Update_locals_frame [OF ok'] by (simp add: m'_def)
  with step show ?thesis by (auto simp: m'_def focus_defs)
qed

theorem move_up_from_first_row_witness:
  "reachable demo_lib on_first_key_state \<and>
   Update demo_lib fresh_world on_first_key_state (KeyMsg ''up'') =
     Inr (on_first_key_state\<lparr>cursor := 2\<rparr>, tea_Other, fresh_world) \<and>
   (\<exists>c. Update_locals (on_first_key_state\<lparr>cursor := 2\<rparr>) = Inr c \<and> newListIdx c = 2) \<and>
   \<not> ti_focus (newListTextInput (on_first_key_state\<lparr>cursor := 2\<rparr>))"
proof -
  have run: "run_events demo_lib fresh_world one_list_state [KeyMsg ''up''] = Inr on_first_key_state"
    by (simp add: one_list_state_def on_first_key_state_def Update_defs demo_defs focus_defs Let_def)
  have r: "reachable demo_lib on_first_key_state"
    by (rule reachable_run [OF one_list_state_reachable run])
  have ok: "selection_ok on_first_key_state"
    by (simp add: selection_ok_def on_first_key_state_def one_list_state_def)
  have first: "cursor on_first_key_state = 0" by (simp add: on_first_key_state_def)
  from move_up_from_first_row [OF ok first, of "''up''" demo_lib fresh_world]
  obtain m' c where step: "Update demo_lib fresh_world on_first_key_state (KeyMsg ''up'') = Inr (m', tea_Other, fresh_world)"
    and c: "Update_locals m' = Inr c" "cursor m' = newListIdx c"
      "cursor m' = row_count on_first_key_state - 1" "\<not> ti_focus (newListTextInput m')"
    by auto
  have "Update demo_lib fresh_world on_first_key_state (KeyMsg ''up'') =
     Inr (on_first_key_state\<lparr>cursor := 2\<rparr>, tea_Other, fresh_world)"
    by (simp add: one_list_state_def on_first_key_state_def Update_defs demo_defs focus_defs Let_def)
  with step have m': "m' = on_first_key_state\<lparr>cursor := 2\<rparr>" by simp
  from c r step show ?thesis unfolding m' by auto
qed

section \<open>Keys and the list mapping\<close>

text \<open>
  C3.  The claim says the keys of the sequence and the keys of the mapping are the same
  set in every reachable state, duplicate names included.  Starting without a data file,
  add the list \<open>A\<close>, move to the add-list row, add \<open>A\<close> again, move up to the first key
  row and delete it: one key \<open>A\<close> is left and the mapping is empty.
\<close>

theorem duplicate_name_leaves_dangling_key:
  "run_events demo_lib fresh_world start_state
     (map KeyMsg [''A'', ''enter'', ''down'', ''A'', ''enter'', ''up'', ''up'', ''d''])
     = Inr dangling_key_state \<and>
   reachable demo_lib dangling_key_state \<and>
   keys dangling_key_state = [''A''] \<and> map_keys (lists_map dangling_key_state) = {} \<and>
   set (keys dangling_key_state) \<noteq> map_keys (lists_map dangling_key_state)"
proof -
  have run: "run_events demo_lib fresh_world start_state
     (map KeyMsg [''A'', ''enter'', ''down'', ''A'', ''enter'', ''up'', ''up'', ''d''])
     = Inr dangling_key_state"
    by (simp add: start_state_def dangling_key_state_def Update_defs demo_defs focus_defs Let_def)
  have "reachable demo_lib dangling_key_state"
    by (rule reachable_run [OF start_state_reachable run])
  with run show ?thesis by (simp add: dangling_key_state_def map_keys_def)
qed

section \<open>Deleting\<close>

text \<open>
  C4, as the claim states it, fails where it says that the delete key changes nothing
  off the key and item rows: in the state after the first list was added the cursor is on
  the add-item row, whose field has the focus, and the key \<^verbatim>\<open>d\<close> is typed into it.
\<close>

theorem delete_changes_text_counterexample:
  "int (length (keys one_list_state)) + int (length (selected_items one_list_state))
     \<le> cursor one_list_state \<and>
   Update demo_lib fresh_world one_list_state (KeyMsg ''d'') =
     Inr (one_list_state\<lparr>textInput := \<lparr>ti_value = ''d'', ti_focus = True\<rparr>\<rparr>,
          tea_Other, fresh_world) \<and>
   one_list_state\<lparr>textInput := \<lparr>ti_value = ''d'', ti_focus = True\<rparr>\<rparr> \<noteq> one_list_state"
  by (simp add: one_list_state_def selected_items_def Update_defs demo_defs Let_def)

text \<open>
  C4, amended.  With the offset equal to the key count and a valid selection: on an item
  row of the selected list the delete key removes exactly that item and sets the cursor to
  \<open>(newItemCount - 1) + K\<close>, \<open>K\<close> the number of keys; on an input row it removes
  nothing and leaves keys, lists, selection, cursor and offset as they are.  In both cases
  the key is then handed to the update of the two text fields.
\<close>

theorem delete_item:
  assumes ok: "selection_ok m"
  shows "(int (length (keys m)) \<le> cursor m \<and>
          cursor m < int (length (keys m)) + int (length (selected_items m)) \<longrightarrow>
          (\<exists>f. lists_map m = GoMap f \<and>
             f (keys m ! nat (selectedList m)) = Some (selected_items m) \<and>
             (let newItems = take (nat (cursor m - int (length (keys m)))) (selected_items m)
                             @ drop (Suc (nat (cursor m - int (length (keys m))))) (selected_items m)
              in int (length newItems) = int (length (selected_items m)) - 1 \<and>
                 Update L w m (KeyMsg ''d'') =
                   Inr (m\<lparr>cursor := (int (length newItems) - 1) + int (length (keys m)),
                          lists_map := GoMap (f(keys m ! nat (selectedList m) \<mapsto> newItems)),
                          textInput := textinput_Update L (KeyMsg ''d'') (textInput m),
                          newListTextInput := textinput_Update L (KeyMsg ''d'') (newListTextInput m)\<rparr>,
                        tea_Other, w)))) \<and>
         (int (length (keys m)) + int (length (selected_items m)) \<le> cursor m \<longrightarrow>
          Update L w m (KeyMsg ''d'') =
            Inr (m\<lparr>textInput := textinput_Update L (KeyMsg ''d'') (textInput m),
                   newListTextInput := textinput_Update L (KeyMsg ''d'') (newListTextInput m)\<rparr>,
                 tea_Other, w))"
    (is "(?onItem \<longrightarrow> ?removed) \<and> (?onInput \<longrightarrow> ?typed)")
proof -
  have upd: "Update L w m (KeyMsg ''d'') = Update_delete L w m (frame m) ''d''"
    by (simp add: Update_KeyMsg [OF ok])
  have item: "?onItem \<longrightarrow> ?removed"
  proof
    assume ?onItem
    then have lo: "int (length (keys m)) \<le> cursor m"
      and hi: "cursor m < int (length (keys m)) + int (length (selected_items m))" by simp_all
    define j where "j = nat (cursor m - int (length (keys m)))"
    have j: "j < length (selected_items m)" using lo hi by (simp add: j_def)
    then have len: "int (length (take j (selected_items m) @ drop (Suc j) (selected_items m)))
        = int (length (selected_items m)) - 1"
      by simp
    from Update_delete_item [OF ok lo hi, of L w "''d''"] obtain f where
      f: "lists_map m = GoMap f" "f (keys m ! nat (selectedList m)) = Some (selected_items m)"
      and d: "Update_delete L w m (frame m) ''d'' =
               Update_fields L w
                 (m\<lparr>cursor := int (length (selected_items m)) - 2 + int (length (keys m)),
                    lists_map :=
                       GoMap (f(keys m ! nat (selectedList m) \<mapsto>
                          take j (selected_items m) @ drop (Suc j) (selected_items m)))\<rparr>)
                 (KeyMsg ''d'')"
      unfolding j_def by blast
    show ?removed
      apply (rule exI [of _ f])
      unfolding Let_def j_def [symmetric] len upd d
      using f by (simp add: Update_fields_def)
  qed
  have input: "?onInput \<longrightarrow> ?typed"
    unfolding upd by (simp add: Update_delete_def Update_fields_def)
  from item input show ?thesis by (rule conjI)
qed

theorem delete_item_witness:
  "selection_ok groceries_state \<and> cursor groceries_state = 2 \<and>
   Update demo_lib fresh_world groceries_state (KeyMsg ''d'') =
     Inr (groceries_state\<lparr>cursor := 1,
            lists_map := GoMap [''Groceries'' \<mapsto> [\<lparr>Item = ''milk'', Completed = False\<rparr>]]\<rparr>,
          tea_Other, fresh_world) \<and>
   selection_ok one_list_state \<and> cursor one_list_state = 1 \<and>
   Update demo_lib fresh_world one_list_state (KeyMsg ''d'') =
     Inr (one_list_state\<lparr>textInput := \<lparr>ti_value = ''d'', ti_focus = True\<rparr>\<rparr>,
          tea_Other, fresh_world)"
proof -
  have ok1: "selection_ok groceries_state"
    by (simp add: selection_ok_def groceries_state_def)
  have ok2: "selection_ok one_list_state"
    by (simp add: selection_ok_def one_list_state_def)
  from delete_item [OF ok1, of demo_lib fresh_world]
  have "Update demo_lib fresh_world groceries_state (KeyMsg ''d'') =
     Inr (groceries_state\<lparr>cursor := 1,
            lists_map := GoMap [''Groceries'' \<mapsto> [\<lparr>Item = ''milk'', Completed = False\<rparr>]]\<rparr>,
          tea_Other, fresh_world)"
    by (auto simp: selected_items_def map_index_def Let_def groceries_state_def demo_defs)
  moreover from delete_item [OF ok2, of demo_lib fresh_world]
  have "Update demo_lib fresh_world one_list_state (KeyMsg ''d'') =
     Inr (one_list_state\<lparr>textInput := \<lparr>ti_value = ''d'', ti_focus = True\<rparr>\<rparr>,
          tea_Other, fresh_world)"
    by (simp add: selected_items_def map_index_def one_list_state_def demo_defs)
  ultimately show ?thesis using ok1 ok2
    by (simp add: groceries_state_def one_list_state_def)
qed

text \<open>
  C5.  On a key row the delete key removes that key and the mapping's entry for it.  If no
  key is left, the selection and the cursor are 0 and the add-list field has the focus.
  Otherwise the selection is the previous key (0 for the first) when the selected key
  was deleted, one less when an earlier key was deleted, unchanged when a later one was;
  the cursor is the selection, a key row; both fields are blurred.
\<close>

theorem delete_list:
  assumes ok: "selection_ok m" and lo: "0 \<le> cursor m" and hi: "cursor m < int (length (keys m))"
  shows "\<exists>m'. Update L w m (KeyMsg ''d'') = Inr (m', tea_Other, w) \<and>
           keys m' = take (nat (cursor m)) (keys m) @ drop (Suc (nat (cursor m))) (keys m) \<and>
           lists_map m' = map_delete (lists_map m) (keys m ! nat (cursor m)) \<and>
           listStartOffset m' = int (length (keys m')) \<and>
           ti_value (textInput m') = ti_value (textInput m) \<and>
           ti_value (newListTextInput m') = ti_value (newListTextInput m) \<and>
           \<not> ti_focus (textInput m') \<and>
           (if keys m' = []
            then selectedList m' = 0 \<and> cursor m' = 0 \<and> ti_focus (newListTextInput m')
            else selectedList m' =
                   (if cursor m = selectedList m then max 0 (cursor m - 1)
                    else if cursor m < selectedList m then selectedList m - 1
                    else selectedList m) \<and>
                 cursor m' = selectedList m' \<and>
                 0 \<le> cursor m' \<and> cursor m' < int (length (keys m')) \<and>
                 \<not> ti_focus (newListTextInput m'))"
proof -
  define i where "i = nat (cursor m)"
  define ks where "ks = take i (keys m) @ drop (Suc i) (keys m)"
  define sel where "sel = (if cursor m = selectedList m
                     then (if cursor m - 1 < 0 then 0 else cursor m - 1)
                     else if cursor m < selectedList m then selectedList m - 1
                     else selectedList m)"
  have upd: "Update L w m (KeyMsg ''d'') = Update_delete L w m (frame m) ''d''"
    by (simp add: Update_KeyMsg [OF ok])
  have len: "int (length ks) = int (length (keys m)) - 1"
    using lo hi by (simp add: ks_def i_def)
  from ok hi lo have selr: "0 \<le> selectedList m" "selectedList m < int (length (keys m))"
    by (auto simp: selection_ok_def)
  show ?thesis
  proof (cases "ks = []")
    case True
    then show ?thesis
      unfolding upd Update_delete_key [OF lo hi] Let_def
      by (simp add: ks_def [symmetric] i_def [symmetric] focus_defs)
  next
    case False
    then have pos: "1 \<le> int (length ks)" by (cases ks) simp_all
    have "0 \<le> sel \<and> sel < int (length ks)"
      unfolding sel_def using selr lo hi len pos by auto
    moreover have "sel = (if cursor m = selectedList m then max 0 (cursor m - 1)
                    else if cursor m < selectedList m then selectedList m - 1
                    else selectedList m)"
      by (simp add: sel_def max_def)
    ultimately show ?thesis
      using False
      unfolding upd Update_delete_key [OF lo hi] Let_def
      by (simp add: ks_def [symmetric] i_def [symmetric] sel_def [symmetric] focus_defs)
  qed
qed

theorem delete_list_witness:
  "selection_ok two_lists_state \<and> cursor two_lists_state = 0 \<and>
   (\<exists>m'. Update demo_lib fresh_world two_lists_state (KeyMsg ''d'') = Inr (m', tea_Other, fresh_world) \<and>
      keys m' = [''B''] \<and> selectedList m' = 0 \<and> cursor m' = 0 \<and>
      map_index (lists_map m') ''B'' = [\<lparr>Item = ''milk'', Completed = False\<rparr>] \<and>
      map_keys (lists_map m') = {''B''} \<and>
      \<not> ti_focus (textInput m') \<and> \<not> ti_focus (newListTextInput m'))"
proof -
  have ok: "selection_ok two_lists_state"
    by (simp add: selection_ok_def two_lists_state_def)
  have lo: "0 \<le> cursor two_lists_state" and hi: "cursor two_lists_state < int (length (keys two_lists_state))"
    by (simp_all add: two_lists_state_def)
  from delete_list [OF ok lo hi, of demo_lib fresh_world] obtain m' where
    "Update demo_lib fresh_world two_lists_state (KeyMsg ''d'') = Inr (m', tea_Other, fresh_world)"
    "keys m' = take (nat (cursor two_lists_state)) (keys two_lists_state)
        @ drop (Suc (nat (cursor two_lists_state))) (keys two_lists_state)"
    "lists_map m' = map_delete (lists_map two_lists_state) (keys two_lists_state ! nat (cursor two_lists_state))"
    "\<not> ti_focus (textInput m')"
    "(if keys m' = []
            then selectedList m' = 0 \<and> cursor m' = 0 \<and> ti_focus (newListTextInput m')
            else selectedList m' =
                   (if cursor two_lists_state = selectedList two_lists_state then max 0 (cursor two_lists_state - 1)
                    else if cursor two_lists_state < selectedList two_lists_state then selectedList two_lists_state - 1
                    else selectedList two_lists_state) \<and>
                 cursor m' = selectedList m' \<and>
                 0 \<le> cursor m' \<and> cursor m' < int (length (keys m')) \<and>
                 \<not> ti_focus (newListTextInput m'))"
    by blast
  then show ?thesis using ok
    by (auto simp: two_lists_state_def map_delete_def map_index_def map_keys_def)
qed

section \<open>Confirming\<close>

text \<open>
  On the add-list row, with a name that is not blank after trimming and an allocated
  mapping, \<^verbatim>\<open>enter\<close> appends the trimmed name to the keys, stores an empty list under it,
  selects the last key, sets offset and cursor to the new key count, which is the add-item
  row of the new state, clears and blurs the add-list field and focuses the add-item field.
\<close>

lemma add_list:
  assumes ok: "selection_ok m" and alloc: "lists_map m = GoMap f"
    and cur: "cursor m = row_count m - 1"
    and name: "TrimSpace (ti_value (newListTextInput m)) \<noteq> []"
  shows "\<exists>m'. Update L w m (KeyMsg ''enter'') = Inr (m', tea_Other, w) \<and>
           keys m' = keys m @ [TrimSpace (ti_value (newListTextInput m))] \<and>
           lists_map m' = GoMap (f(TrimSpace (ti_value (newListTextInput m)) \<mapsto> [])) \<and>
           selectedList m' = int (length (keys m')) - 1 \<and>
           selected_items m' = [] \<and>
           listStartOffset m' = int (length (keys m')) \<and>
           cursor m' = int (length (keys m')) \<and>
           cursor m' = row_count m' - 2 \<and>
           ti_value (newListTextInput m') = [] \<and> \<not> ti_focus (newListTextInput m') \<and>
           ti_focus (textInput m') \<and> ti_value (textInput m') = ti_value (textInput m)"
proof -
  define t where "t = TrimSpace (ti_value (newListTextInput m))"
  define m' where "m' = m\<lparr>lists_map := GoMap (f(t \<mapsto> [])),
                       keys := keys m @ [t],
                       selectedList := int (length (keys m)),
                       cursor := int (length (keys m)) + 1,
                       textInput := Focus (textInput m),
                       newListTextInput := Blur (SetValue [] (newListTextInput m)),
                       listStartOffset := int (length (keys m)) + 1\<rparr>"
  have "Update L w m (KeyMsg ''enter'') = Update_enter L w m (frame m) ''enter''"
    by (simp add: Update_KeyMsg [OF ok])
  also have "\<dots> = Inr (m', tea_Other, w)"
    using name alloc by (simp add: Update_enter_add_list [OF cur] m'_def t_def)
  finally have step: "Update L w m (KeyMsg ''enter'') = Inr (m', tea_Other, w)" .
  have its: "selected_items m' = []"
    by (simp add: selected_items_def m'_def map_index_def)
  then have rc: "row_count m' = int (length (keys m')) + 2"
    by (simp add: row_count_def m'_def)
  show ?thesis
    apply (rule exI [of _ m'])
    unfolding rc t_def [symmetric]
    using step its by (simp add: m'_def focus_defs)
qed

lemma add_list_groceries:
  "selection_ok name_typed_state \<and> cursor name_typed_state = row_count name_typed_state - 1 \<and>
   TrimSpace (ti_value (newListTextInput name_typed_state)) = ''Groceries'' \<and>
   Update demo_lib fresh_world name_typed_state (KeyMsg ''enter'') =
     Inr (\<lparr>lists_map = GoMap [''Groceries'' \<mapsto> []], keys = [''Groceries''],
           selectedList = 0, cursor = 1,
           textInput = \<lparr>ti_value = [], ti_focus = True\<rparr>,
           newListTextInput = \<lparr>ti_value = [], ti_focus = False\<rparr>,
           listStartOffset = 1\<rparr>, tea_Other, fresh_world)"
proof -
  have ok: "selection_ok name_typed_state"
    by (simp add: selection_ok_def name_typed_state_def start_state_def)
  have alloc: "lists_map name_typed_state = GoMap Map.empty"
    by (simp add: name_typed_state_def start_state_def)
  have cur: "cursor name_typed_state = row_count name_typed_state - 1"
    by (simp add: name_typed_state_def start_state_def row_count_def selected_items_def)
  have t: "TrimSpace (ti_value (newListTextInput name_typed_state)) = ''Groceries''"
    by (simp add: name_typed_state_def TrimSpace_def isSpace_def)
  then have name: "TrimSpace (ti_value (newListTextInput name_typed_state)) \<noteq> []" by simp
  from add_list [OF ok alloc cur name, of demo_lib fresh_world] obtain m' where
    step: "Update demo_lib fresh_world name_typed_state (KeyMsg ''enter'') = Inr (m', tea_Other, fresh_world)"
    and f: "keys m' = keys name_typed_state @ [TrimSpace (ti_value (newListTextInput name_typed_state))]"
      "lists_map m' = GoMap [TrimSpace (ti_value (newListTextInput name_typed_state)) \<mapsto> []]"
      "selectedList m' = int (length (keys m')) - 1"
      "listStartOffset m' = int (length (keys m'))"
      "cursor m' = int (length (keys m'))"
      "ti_value (newListTextInput m') = []" "\<not> ti_focus (newListTextInput m')"
      "ti_focus (textInput m')" "ti_value (textInput m') = ti_value (textInput name_typed_state)"
    by blast
  have "m' = \<lparr>lists_map = GoMap [''Groceries'' \<mapsto> []], keys = [''Groceries''],
           selectedList = 0, cursor = 1,
           textInput = \<lparr>ti_value = [], ti_focus = True\<rparr>,
           newListTextInput = \<lparr>ti_value = [], ti_focus = False\<rparr>,
           listStartOffset = 1\<rparr>"
    using f unfolding t by (cases m') (simp add: name_typed_state_def start_state_def)
  with step ok cur t show ?thesis by simp
qed

text \<open>
  C6.  The claim says that in every state with the cursor on the add-list row and a
  non-blank name, \<^verbatim>\<open>enter\<close> adds the list.  \<^verbatim>\<open>loadItems\<close> allocates the mapping
  when the data file is absent or empty, but returns \<^verbatim>\<open>data.Lists\<close> as decoded
  otherwise: a file holding \<^verbatim>\<open>{}\<close> starts the program with a nil map.  There the
  cursor is on the add-list row, a typed \<open>G\<close> is a non-blank name, and \<^verbatim>\<open>enter\<close> panics at
  \<^verbatim>\<open>m.lists[text] = make([]listItem, 0)\<close>: no list is added.
\<close>

theorem add_list_on_nil_map_panics:
  "initialModel bare_lib bare_world = Inr nil_map_state \<and>
   Update bare_lib bare_world nil_map_state (KeyMsg ''G'') =
     Inr (nil_map_state\<lparr>newListTextInput := \<lparr>ti_value = ''G'', ti_focus = True\<rparr>\<rparr>,
          tea_Other, bare_world) \<and>
   reachable bare_lib (nil_map_state\<lparr>newListTextInput := \<lparr>ti_value = ''G'', ti_focus = True\<rparr>\<rparr>) \<and>
   cursor (nil_map_state\<lparr>newListTextInput := \<lparr>ti_value = ''G'', ti_focus = True\<rparr>\<rparr>)
     = row_count (nil_map_state\<lparr>newListTextInput := \<lparr>ti_value = ''G'', ti_focus = True\<rparr>\<rparr>) - 1 \<and>
   TrimSpace (ti_value (newListTextInput
       (nil_map_state\<lparr>newListTextInput := \<lparr>ti_value = ''G'', ti_focus = True\<rparr>\<rparr>))) = ''G'' \<and>
   Update bare_lib bare_world
       (nil_map_state\<lparr>newListTextInput := \<lparr>ti_value = ''G'', ti_focus = True\<rparr>\<rparr>)
       (KeyMsg ''enter'') = Inl NilMapWrite"
proof -
  have init: "initialModel bare_lib bare_world = Inr nil_map_state"
    by (simp add: initialModel_def loadItems_def bare_lib_def bare_world_def bare_document_def
        dirName_def fileName_def focus_defs textinput_New_def nil_map_state_def)
  have typed: "Update bare_lib bare_world nil_map_state (KeyMsg ''G'') =
     Inr (nil_map_state\<lparr>newListTextInput := \<lparr>ti_value = ''G'', ti_focus = True\<rparr>\<rparr>,
          tea_Other, bare_world)"
    by (simp add: nil_map_state_def Update_defs bare_lib_def typed_field_def Let_def)
  have r: "reachable bare_lib (nil_map_state\<lparr>newListTextInput := \<lparr>ti_value = ''G'', ti_focus = True\<rparr>\<rparr>)"
    by (rule reachable.event [OF reachable.start [OF init] typed])
  have panic: "Update bare_lib bare_world
       (nil_map_state\<lparr>newListTextInput := \<lparr>ti_value = ''G'', ti_focus = True\<rparr>\<rparr>)
       (KeyMsg ''enter'') = Inl NilMapWrite"
    by (simp add: nil_map_state_def Update_defs bare_lib_def Let_def)
  from init typed r panic show ?thesis
    by (simp add: nil_map_state_def row_count_def selected_items_def TrimSpace_def isSpace_def)
qed

text \<open>In the multi-list program a blank text on either input row creates nothing:
  \<^verbatim>\<open>enter\<close> only reaches the text fields.\<close>

lemma blank_enter_multi:
  assumes ok: "selection_ok m"
    and row: "(keys m \<noteq> [] \<and> cursor m = row_count m - 2 \<and> TrimSpace (ti_value (textInput m)) = [])
              \<or> (cursor m = row_count m - 1 \<and> TrimSpace (ti_value (newListTextInput m)) = [])"
  shows "Update L w m (KeyMsg ''enter'') =
           Inr (m\<lparr>textInput := textinput_Update L (KeyMsg ''enter'') (textInput m),
                  newListTextInput := textinput_Update L (KeyMsg ''enter'') (newListTextInput m)\<rparr>,
                tea_Other, w)"
proof -
  have upd: "Update L w m (KeyMsg ''enter'') = Update_enter L w m (frame m) ''enter''"
    by (simp add: Update_KeyMsg [OF ok])
  from row show ?thesis
  proof
    assume a: "keys m \<noteq> [] \<and> cursor m = row_count m - 2 \<and> TrimSpace (ti_value (textInput m)) = []"
    then have cur: "cursor m = int (length (keys m)) + int (length (selected_items m))"
      by (simp add: row_count_def)
    from a show ?thesis
      unfolding upd by (simp add: Update_enter_add_item [OF ok _ cur] Update_fields_def)
  next
    assume a: "cursor m = row_count m - 1 \<and> TrimSpace (ti_value (newListTextInput m)) = []"
    then show ?thesis
      unfolding upd by (simp add: Update_enter_add_list Update_fields_def)
  qed
qed

text \<open>The single-list program of \<^verbatim>\<open>src/main.go\<close> appends whatever the field holds.\<close>

lemma single_enter_accepts_any_text:
  "single_Update L w
     \<lparr>single_items = its, single_cursor = int (length its), single_textInput = t\<rparr>
     (KeyMsg ''enter'') =
   Inr (\<lparr>single_items = its @ [\<lparr>Item = ti_value t, Completed = False\<rparr>],
         single_cursor = int (length its) + 1,
         single_textInput = SetValue [] t\<rparr>, tea_Other, w)"
  by (simp add: single_Update_def Let_def)

text \<open>
  C7.  The claim says a blank text submitted to an input field creates no item and moves
  nothing.  \<^verbatim>\<open>src/main.go\<close> takes the field's text as it is: at start-up without a data
  file \<^verbatim>\<open>enter\<close> appends an item with the empty text and advances the cursor, and a text
  of two spaces becomes an item of two spaces.
\<close>

theorem single_blank_enter_creates_item:
  "single_initialModel demo_lib fresh_world =
     Inr \<lparr>single_items = [], single_cursor = 0,
          single_textInput = \<lparr>ti_value = [], ti_focus = True\<rparr>\<rparr> \<and>
   single_Update demo_lib fresh_world
     \<lparr>single_items = [], single_cursor = 0,
      single_textInput = \<lparr>ti_value = [], ti_focus = True\<rparr>\<rparr> (KeyMsg ''enter'') =
     Inr (\<lparr>single_items = [\<lparr>Item = [], Completed = False\<rparr>], single_cursor = 1,
           single_textInput = \<lparr>ti_value = [], ti_focus = True\<rparr>\<rparr>, tea_Other, fresh_world) \<and>
   single_Update demo_lib fresh_world
     \<lparr>single_items = [], single_cursor = 0,
      single_textInput = \<lparr>ti_value = ''  '', ti_focus = True\<rparr>\<rparr> (KeyMsg ''enter'') =
     Inr (\<lparr>single_items = [\<lparr>Item = ''  '', Completed = False\<rparr>], single_cursor = 1,
           single_textInput = \<lparr>ti_value = [], ti_focus = True\<rparr>\<rparr>, tea_Other, fresh_world)"
  by (simp add: single_initialModel_def single_loadItems_def single_Update_def demo_defs
      dirName_def fileName_def Let_def focus_defs textinput_New_def)

section \<open>Quitting and the data file\<close>

lemma data_file_path:
  "filepath_Join [filepath_Join [h, dirName], fileName] = filepath_Join [h, dirName, fileName]"
  by simp

lemma SaveItems_writes:
  assumes "UserHomeDir w = Some h" and "MkdirAll_ok w" and "WriteFile_ok w"
    and "json_Marshal L (V_jsonData \<lparr>Keys = keys m, Lists = lists_map m\<rparr>) = Some bytes"
  shows "SaveItems L w m =
           Inr (w\<lparr>files := (files w)(filepath_Join [h, dirName, fileName] := Contents bytes)\<rparr>)"
  using assms by (simp add: SaveItems_def Let_def)

text \<open>
  C8.  With the offset equal to the key count and a valid selection: when a list exists
  and the cursor is on the add-item row, \<^verbatim>\<open>q\<close> only reaches the two text fields and
  nothing else changes; in every other state \<^verbatim>\<open>q\<close>, and \<^verbatim>\<open>ctrl+c\<close> in every state,
  runs \<^verbatim>\<open>SaveItems\<close> and returns \<^verbatim>\<open>tea.Quit\<close> with the model untouched; and where the
  home directory resolves, the directory can be made, the file written and the snapshot
  encoded, the data file then holds the encoding of keys and lists.
\<close>

theorem quit_key:
  assumes ok: "selection_ok m"
  shows "(keys m \<noteq> [] \<and> cursor m = row_count m - 2 \<longrightarrow>
            Update L w m (KeyMsg ''q'') =
              Inr (m\<lparr>textInput := textinput_Update L (KeyMsg ''q'') (textInput m),
                     newListTextInput := textinput_Update L (KeyMsg ''q'') (newListTextInput m)\<rparr>,
                   tea_Other, w)) \<and>
         (\<not> (keys m \<noteq> [] \<and> cursor m = row_count m - 2) \<longrightarrow>
            Update L w m (KeyMsg ''q'') = bindE (SaveItems L w m) (\<lambda>w'. Inr (m, tea_Quit, w'))) \<and>
         Update L w m (KeyMsg ''ctrl+c'') = bindE (SaveItems L w m) (\<lambda>w'. Inr (m, tea_Quit, w')) \<and>
         (\<forall>h bytes. UserHomeDir w = Some h \<and> MkdirAll_ok w \<and> WriteFile_ok w \<and>
            json_Marshal L (V_jsonData \<lparr>Keys = keys m, Lists = lists_map m\<rparr>) = Some bytes \<longrightarrow>
            bindE (SaveItems L w m) (\<lambda>w'. Inr (m, tea_Quit, w')) =
              Inr (m, tea_Quit,
                   w\<lparr>files := (files w)(filepath_Join [h, dirName, fileName] := Contents bytes)\<rparr>))"
proof -
  have addItemRow: "keys m \<noteq> [] \<Longrightarrow>
      cursor m = row_count m - 2 \<longleftrightarrow> cursor m - int (length (keys m)) = int (length (selected_items m))"
    by (auto simp: row_count_def)
  have q: "Update L w m (KeyMsg ''q'') = Update_quit L w m (frame m) ''q''"
    and c: "Update L w m (KeyMsg ''ctrl+c'') = Update_quit L w m (frame m) ''ctrl+c''"
    by (simp_all add: Update_KeyMsg [OF ok])
  have 1: "keys m \<noteq> [] \<and> cursor m = row_count m - 2 \<longrightarrow>
            Update L w m (KeyMsg ''q'') =
              Inr (m\<lparr>textInput := textinput_Update L (KeyMsg ''q'') (textInput m),
                     newListTextInput := textinput_Update L (KeyMsg ''q'') (newListTextInput m)\<rparr>,
                   tea_Other, w)"
    unfolding q using addItemRow by (auto simp: Update_quit_def Update_fields_def)
  have 2: "\<not> (keys m \<noteq> [] \<and> cursor m = row_count m - 2) \<longrightarrow>
            Update L w m (KeyMsg ''q'') = bindE (SaveItems L w m) (\<lambda>w'. Inr (m, tea_Quit, w'))"
    unfolding q using addItemRow by (auto simp: Update_quit_def)
  have 3: "Update L w m (KeyMsg ''ctrl+c'') = bindE (SaveItems L w m) (\<lambda>w'. Inr (m, tea_Quit, w'))"
    unfolding c by (simp add: Update_quit_def)
  have 4: "\<forall>h bytes. UserHomeDir w = Some h \<and> MkdirAll_ok w \<and> WriteFile_ok w \<and>
            json_Marshal L (V_jsonData \<lparr>Keys = keys m, Lists = lists_map m\<rparr>) = Some bytes \<longrightarrow>
            bindE (SaveItems L w m) (\<lambda>w'. Inr (m, tea_Quit, w')) =
              Inr (m, tea_Quit,
                   w\<lparr>files := (files w)(filepath_Join [h, dirName, fileName] := Contents bytes)\<rparr>)"
    by (auto simp: SaveItems_writes)
  from 1 2 3 4 show ?thesis by (intro conjI)
qed

theorem quit_key_witness:
  "selection_ok one_list_state \<and> keys one_list_state \<noteq> [] \<and>
   cursor one_list_state = row_count one_list_state - 2 \<and>
   Update demo_lib fresh_world one_list_state (KeyMsg ''q'') =
     Inr (one_list_state\<lparr>textInput := \<lparr>ti_value = ''q'', ti_focus = True\<rparr>\<rparr>, tea_Other, fresh_world) \<and>
   selection_ok start_state \<and> keys start_state = [] \<and>
   Update demo_lib fresh_world start_state (KeyMsg ''q'') = Inr (start_state, tea_Quit, saved_world) \<and>
   Update demo_lib fresh_world start_state (KeyMsg ''ctrl+c'') = Inr (start_state, tea_Quit, saved_world)"
proof -
  have ok1: "selection_ok one_list_state"
    by (simp add: selection_ok_def one_list_state_def)
  have ok0: "selection_ok start_state"
    by (simp add: selection_ok_def start_state_def)
  have row: "keys one_list_state \<noteq> [] \<and> cursor one_list_state = row_count one_list_state - 2"
    by (simp add: one_list_state_def row_count_def selected_items_def map_index_def)
  have nokeys: "keys start_state = []" by (simp add: start_state_def)
  have env: "UserHomeDir fresh_world = Some ''/home/user'' \<and> MkdirAll_ok fresh_world \<and>
      WriteFile_ok fresh_world \<and>
      json_Marshal demo_lib (V_jsonData \<lparr>Keys = keys start_state, Lists = lists_map start_state\<rparr>)
        = Some empty_document"
    by (simp add: fresh_world_def demo_lib_def demo_Marshal_def start_state_def)
  have path: "filepath_Join [''/home/user'', dirName, fileName] = ''/home/user/.tui-do/.tui-do.json''"
    by (simp add: dirName_def fileName_def)
  note q1 = quit_key [OF ok1, of demo_lib fresh_world]
  note q0 = quit_key [OF ok0, of demo_lib fresh_world]
  have typed: "Update demo_lib fresh_world one_list_state (KeyMsg ''q'') =
     Inr (one_list_state\<lparr>textInput := \<lparr>ti_value = ''q'', ti_focus = True\<rparr>\<rparr>, tea_Other, fresh_world)"
    using q1 row by (simp add: demo_lib_def typed_field_def one_list_state_def)
  have saved: "bindE (SaveItems demo_lib fresh_world start_state) (\<lambda>w'. Inr (start_state, tea_Quit, w'))
      = Inr (start_state, tea_Quit, saved_world)"
    using q0 env unfolding saved_world_def path [symmetric] by blast
  have "Update demo_lib fresh_world start_state (KeyMsg ''q'') = Inr (start_state, tea_Quit, saved_world)"
    using q0 nokeys saved by simp
  moreover have "Update demo_lib fresh_world start_state (KeyMsg ''ctrl+c'') = Inr (start_state, tea_Quit, saved_world)"
    using q0 saved by simp
  ultimately show ?thesis using ok1 ok0 row nokeys typed by simp
qed

subsection \<open>Decoding what was encoded\<close>

lemma names_field_simps [simp]:
  "names_field ''keys'' ''keys''" "names_field ''lists'' ''lists''"
  "\<not> names_field ''lists'' ''keys''"
  "names_field ''item'' ''item''" "names_field ''completed'' ''completed''"
  "\<not> names_field ''completed'' ''item''"
  by (simp_all add: names_field_def fold_ascii_def)

lemma those_map_comp: "(\<And>x. d (e x) = Some x) \<Longrightarrow> those (map (d \<circ> e) xs) = Some xs"
  by (induction xs) simp_all

lemma dec_item_item_json: "dec_item (item_json it) = Some it"
  by (cases it) (simp add: dec_item_def item_json_def dec_string_def dec_bool_def)

lemma dec_strings: "slice_json JString xs t \<Longrightarrow> dec_slice (dec_string []) t = Some xs"
  by (auto simp: slice_json_def dec_slice_def dec_string_def those_map_comp)

lemma dec_items: "slice_json item_json xs t \<Longrightarrow> dec_slice dec_item t = Some xs"
  by (auto simp: slice_json_def dec_slice_def dec_item_item_json those_map_comp)

lemma dec_map_members_encoded:
  assumes "\<forall>(k, v) \<in> set ms. \<exists>xs. f k = Some xs \<and> slice_json item_json xs v"
  shows "dec_map_members ms g = Some (\<lambda>k. if k \<in> fst ` set ms then f k else g k)"
  using assms
proof (induction ms arbitrary: g)
  case Nil
  then show ?case by simp
next
  case (Cons p ms)
  obtain k v where p: "p = (k, v)" by (cases p)
  from Cons.prems p obtain xs where xs: "f k = Some xs" "slice_json item_json xs v" by auto
  from Cons.prems have rest: "\<forall>(k, v) \<in> set ms. \<exists>xs. f k = Some xs \<and> slice_json item_json xs v"
    by simp
  have "dec_map_members (p # ms) g = dec_map_members ms (g(k \<mapsto> xs))"
    using p xs by (simp add: dec_items)
  also have "\<dots> = Some (\<lambda>j. if j \<in> fst ` set ms then f j else (g(k \<mapsto> xs)) j)"
    by (rule Cons.IH [OF rest])
  also have "(\<lambda>j. if j \<in> fst ` set ms then f j else (g(k \<mapsto> xs)) j)
      = (\<lambda>j. if j \<in> fst ` set (p # ms) then f j else g j)"
    using p xs by (auto simp: fun_eq_iff)
  finally show ?case .
qed

lemma dec_map_encoded: "map_json mp t \<Longrightarrow> dec_map NilMap t = Some mp"
proof (cases mp)
  case NilMap
  assume "map_json mp t"
  with NilMap show ?thesis by (simp add: map_json_def dec_map_def)
next
  case (GoMap f)
  assume "map_json mp t"
  with GoMap obtain ms where ms: "t = JObject ms" "fst ` set ms = dom f"
    "\<forall>(k, v) \<in> set ms. \<exists>xs. f k = Some xs \<and> slice_json item_json xs v"
    by (auto simp: map_json_def)
  have "(\<lambda>k. if k \<in> fst ` set ms then f k else Map.empty k) = f"
    unfolding ms(2) by (rule ext) (simp add: domIff)
  with dec_map_members_encoded [OF ms(3), of Map.empty] ms(1) GoMap show ?thesis
    by (simp add: dec_map_def)
qed

text \<open>Every document that encodes a snapshot decodes to that snapshot: keys in their
  order, every list under its name, items in their order with their flags.\<close>

lemma jsonData_of_json_encoded:
  assumes "jsonData_json d t"
  shows "jsonData_of_json t = Decoded d"
proof -
  from assms obtain tk tl where t: "t = JObject [(''keys'', tk), (''lists'', tl)]"
    and k: "slice_json JString (Keys d) tk" and l: "map_json (Lists d) tl"
    by (auto simp: jsonData_json_def)
  show ?thesis
    unfolding t by (cases d) (use k l in \<open>simp add: jsonData_of_json_def dec_strings dec_map_encoded\<close>)
qed

text \<open>The decoder on the document of the two lists.\<close>

lemma stocked_document_decodes:
  "jsonData_of_json stocked_document =
     Decoded \<lparr>Keys = [''Work'', ''Groceries''],
              Lists = GoMap [''Groceries'' \<mapsto> [\<lparr>Item = ''milk'', Completed = False\<rparr>,
                                              \<lparr>Item = ''eggs'', Completed = True\<rparr>],
                             ''Work'' \<mapsto> []]\<rparr>"
  by (simp add: jsonData_of_json_def stocked_document_def dec_slice_def dec_string_def
      dec_map_def dec_item_def dec_bool_def names_field_def fold_ascii_def)

lemma stocked_document_encodes:
  "jsonData_json \<lparr>Keys = keys stocked_state, Lists = lists_map stocked_state\<rparr> stocked_document"
  by (auto simp: jsonData_json_def stocked_document_def stocked_state_def slice_json_def
      map_json_def item_json_def)

lemma table_lib_encoding_json: "encoding_json table_lib table_doc"
  unfolding encoding_json_def
proof (intro conjI allI impI)
  fix d bytes
  assume "json_Marshal table_lib (V_jsonData d) = Some bytes"
  then have "d = \<lparr>Keys = keys stocked_state, Lists = lists_map stocked_state\<rparr>"
    and "bytes = stocked_text"
    by (auto simp: table_lib_def split: if_splits)
  then show "\<exists>t. table_doc bytes t \<and> jsonData_json d t"
    using stocked_document_encodes by (auto simp: table_doc_def)
next
  fix bytes t
  assume "table_doc bytes t"
  then show "json_Unmarshal table_lib bytes = jsonData_of_json t"
    by (simp add: table_doc_def table_lib_def)
next
  fix t
  show "\<not> table_doc [] t" by (simp add: table_doc_def stocked_text_def)
qed

text \<open>
  C9.  With a library that meets the contract \<open>encoding_json\<close>, and where the home
  directory resolves, the directory can be made, the file written and the snapshot
  encoded: \<^verbatim>\<open>SaveItems\<close> writes the encoder's bytes to the data file, and \<^verbatim>\<open>loadItems\<close>
  in the world it leaves returns the list mapping and the key sequence of the model, the
  keys in their order and the items of every list in theirs.
\<close>

theorem save_then_load:
  assumes lib: "encoding_json L doc"
    and home: "UserHomeDir w = Some h" and dir: "MkdirAll_ok w" and wr: "WriteFile_ok w"
    and enc: "json_Marshal L (V_jsonData \<lparr>Keys = keys m, Lists = lists_map m\<rparr>) = Some bytes"
  shows "\<exists>w'. SaveItems L w m = Inr w' \<and>
              files w' (filepath_Join [h, dirName, fileName]) = Contents bytes \<and>
              loadItems L w' = Inr (lists_map m, keys m)"
proof -
  define w' where "w' = w\<lparr>files := (files w)(filepath_Join [h, dirName, fileName] := Contents bytes)\<rparr>"
  have s: "SaveItems L w m = Inr w'"
    unfolding w'_def using home dir wr enc by (rule SaveItems_writes)
  from lib enc obtain t where t: "doc bytes t"
    and j: "jsonData_json \<lparr>Keys = keys m, Lists = lists_map m\<rparr> t"
    unfolding encoding_json_def by blast
  from lib t have ne: "bytes \<noteq> []" unfolding encoding_json_def by blast
  from lib t have "json_Unmarshal L bytes = jsonData_of_json t"
    unfolding encoding_json_def by blast
  also have "\<dots> = Decoded \<lparr>Keys = keys m, Lists = lists_map m\<rparr>"
    using j by (rule jsonData_of_json_encoded)
  finally have dec: "json_Unmarshal L bytes = Decoded \<lparr>Keys = keys m, Lists = lists_map m\<rparr>" .
  have "loadItems L w' = Inr (lists_map m, keys m)"
    using home ne dec by (simp add: loadItems_def w'_def)
  with s show ?thesis by (auto simp: w'_def)
qed

theorem save_then_load_witness:
  "encoding_json table_lib table_doc \<and>
   UserHomeDir fresh_world = Some ''/home/user'' \<and> MkdirAll_ok fresh_world \<and>
   WriteFile_ok fresh_world \<and>
   json_Marshal table_lib (V_jsonData \<lparr>Keys = keys stocked_state, Lists = lists_map stocked_state\<rparr>)
     = Some stocked_text \<and>
   SaveItems table_lib fresh_world stocked_state = Inr stocked_world \<and>
   loadItems table_lib stocked_world =
     Inr (GoMap [''Work'' \<mapsto> [],
                 ''Groceries'' \<mapsto> [\<lparr>Item = ''milk'', Completed = False\<rparr>,
                                   \<lparr>Item = ''eggs'', Completed = True\<rparr>]],
          [''Work'', ''Groceries''])"
proof -
  have home: "UserHomeDir fresh_world = Some ''/home/user''" and dir: "MkdirAll_ok fresh_world"
    and wr: "WriteFile_ok fresh_world"
    by (simp_all add: fresh_world_def)
  have enc: "json_Marshal table_lib
      (V_jsonData \<lparr>Keys = keys stocked_state, Lists = lists_map stocked_state\<rparr>) = Some stocked_text"
    by (simp add: table_lib_def)
  have s: "SaveItems table_lib fresh_world stocked_state = Inr stocked_world"
    using SaveItems_writes [OF home dir wr enc]
    by (simp add: stocked_world_def dirName_def fileName_def)
  from save_then_load [OF table_lib_encoding_json home dir wr enc] s
  have "loadItems table_lib stocked_world = Inr (lists_map stocked_state, keys stocked_state)"
    by auto
  then have "loadItems table_lib stocked_world =
     Inr (GoMap [''Work'' \<mapsto> [],
                 ''Groceries'' \<mapsto> [\<lparr>Item = ''milk'', Completed = False\<rparr>,
                                   \<lparr>Item = ''eggs'', Completed = True\<rparr>]],
          [''Work'', ''Groceries''])"
    by (simp add: stocked_state_def)
  with table_lib_encoding_json home dir wr enc s show ?thesis by simp
qed

end
